theory Spec2Isabelle
  imports Main
begin

section \<open>Text and the string built-ins the handlers call\<close>

text \<open>
  The server is a single TypeScript module for Deno. The module embedded here is the
  revision with both \<^verbatim>\<open>/download\<close> and \<^verbatim>\<open>/stream\<close>, the second module of
  \<^verbatim>\<open>src/unnamed/part_001\<close>; the other files under \<^verbatim>\<open>src\<close> are earlier revisions of it.

  A string is a \<^typ>\<open>string\<close>: a list of characters, each one code unit in the range
  0..255 (ISO-8859-1), the range in which a code unit of the source's strings is a code
  point and in which HTTP header values live. On this range the built-ins below compute
  what the runtime computes.
\<close>

definition isSpace :: "char \<Rightarrow> bool" where
  \<comment> \<open>the class \<^verbatim>\<open>\s\<close>, which is also what \<^verbatim>\<open>trim\<close> removes: TAB, LF, VT, FF, CR, SPACE, NBSP\<close>
  "isSpace c \<longleftrightarrow> (of_char c :: nat) \<in> {9, 10, 11, 12, 13, 32, 160}"

definition isLowerAZ :: "char \<Rightarrow> bool" where
  "isLowerAZ c \<longleftrightarrow> 97 \<le> (of_char c :: nat) \<and> (of_char c :: nat) \<le> 122"

definition isUpperAZ :: "char \<Rightarrow> bool" where
  "isUpperAZ c \<longleftrightarrow> 65 \<le> (of_char c :: nat) \<and> (of_char c :: nat) \<le> 90"

definition isDigit :: "char \<Rightarrow> bool" where
  "isDigit c \<longleftrightarrow> 48 \<le> (of_char c :: nat) \<and> (of_char c :: nat) \<le> 57"

definition isHyphen :: "char \<Rightarrow> bool" where
  "isHyphen c \<longleftrightarrow> c = CHR ''-''"

definition toLowerChar :: "char \<Rightarrow> char" where
  \<comment> \<open>A-Z and the capital letters of the upper half (all of C0..DE but the sign D7) move up by 32\<close>
  "toLowerChar c =
     (let n = (of_char c :: nat)
      in if (65 \<le> n \<and> n \<le> 90) \<or> (192 \<le> n \<and> n \<le> 214) \<or> (216 \<le> n \<and> n \<le> 222)
         then char_of (n + 32) else c)"

definition toLowerCase :: "string \<Rightarrow> string" where
  "toLowerCase s = map toLowerChar s"

definition trim :: "string \<Rightarrow> string" where
  "trim s = rev (dropWhile isSpace (rev (dropWhile isSpace s)))"

definition replaceEach :: "(char \<Rightarrow> bool) \<Rightarrow> string \<Rightarrow> string \<Rightarrow> string" where
  \<comment> \<open>\<^verbatim>\<open>s.replace(/[class]/g, r)\<close>: every single character of the class becomes \<open>r\<close>\<close>
  "replaceEach P r s = concat (map (\<lambda>c. if P c then r else [c]) s)"

function replaceRuns :: "(char \<Rightarrow> bool) \<Rightarrow> string \<Rightarrow> string \<Rightarrow> string" where
  \<comment> \<open>\<^verbatim>\<open>s.replace(/[class]+/g, r)\<close>: the greedy match takes the whole run, which becomes one \<open>r\<close>\<close>
  "replaceRuns P r [] = []"
| "replaceRuns P r (c # cs) =
     (if P c then r @ replaceRuns P r (dropWhile P cs) else c # replaceRuns P r cs)"
  by pat_completeness auto
termination
  by (relation "measure (\<lambda>(P, r, s). length s)")
     (auto simp: less_Suc_eq_le length_dropWhile_le)

definition stripEnds :: "(char \<Rightarrow> bool) \<Rightarrow> string \<Rightarrow> string" where
  \<comment> \<open>\<^verbatim>\<open>s.replace(/^[class]+|[class]+$/g, '')\<close>: the run at the start and the run at the end go\<close>
  "stripEnds P s = rev (dropWhile P (rev (dropWhile P s)))"

definition firstField :: "char \<Rightarrow> string \<Rightarrow> string" where
  \<comment> \<open>\<^verbatim>\<open>s.split(sep)[0]\<close>\<close>
  "firstField sep s = takeWhile (\<lambda>c. c \<noteq> sep) s"

section \<open>The content-type resolver\<close>

text \<open>
  \<^verbatim>\<open>mapContentTypeToExtension(contentType: string | null)\<close>. The first test is
  \<^verbatim>\<open>!contentType\<close>, true of \<^verbatim>\<open>null\<close> and of the empty string.
\<close>

definition mapContentTypeToExtension :: "string option \<Rightarrow> string" where
  "mapContentTypeToExtension contentType =
     (case contentType of
        None \<Rightarrow> ''.mp4''
      | Some ct \<Rightarrow>
          if ct = [] then ''.mp4''
          else
            let type = trim (firstField (CHR '';'') ct)
            in if type = ''video/mp4'' then ''.mp4''
               else if type = ''video/x-matroska'' then ''.mkv''
               else if type = ''video/webm'' then ''.webm''
               else if type = ''video/quicktime'' then ''.mov''
               else if type = ''application/octet-stream'' then ''.bin''
               else ''.mp4'')"

text \<open>The table as the specification prints it, and the resolver it describes.\<close>

definition extensionTable :: "(string \<times> string) list" where
  "extensionTable =
     [(''video/mp4'', ''.mp4''), (''video/x-matroska'', ''.mkv''), (''video/webm'', ''.webm''),
      (''video/quicktime'', ''.mov''), (''application/octet-stream'', ''.bin'')]"

definition resolveBySpec :: "string option \<Rightarrow> string" where
  "resolveBySpec contentType =
     (case contentType of
        None \<Rightarrow> ''.mp4''
      | Some ct \<Rightarrow>
          (case map_of extensionTable (trim (firstField (CHR '';'') ct)) of
             Some ext \<Rightarrow> ext
           | None \<Rightarrow> ''.mp4''))"

section \<open>Headers\<close>

text \<open>
  A \<^verbatim>\<open>Headers\<close> object is a list of name/value pairs. Names are compared without regard
  to ASCII case and are stored in lower case; \<^verbatim>\<open>get\<close> joins the values of a repeated name
  with a comma and a space, \<^verbatim>\<open>set\<close> leaves one entry for the name, \<^verbatim>\<open>delete\<close> leaves none.
  The order of the entries plays no part: the object is read by name.
\<close>

type_synonym headerList = "(string \<times> string) list"

definition asciiLower :: "string \<Rightarrow> string" where
  "asciiLower s = map (\<lambda>c. if isUpperAZ c then char_of ((of_char c :: nat) + 32) else c) s"

definition sameName :: "string \<Rightarrow> string \<Rightarrow> bool" where
  "sameName a b \<longleftrightarrow> asciiLower a = asciiLower b"

definition hget :: "string \<Rightarrow> headerList \<Rightarrow> string option" where
  "hget name hs =
     (case map snd (filter (\<lambda>h. sameName (fst h) name) hs) of
        [] \<Rightarrow> None
      | v # vs \<Rightarrow> Some (foldl (\<lambda>a b. a @ '', '' @ b) v vs))"

definition hdelete :: "string \<Rightarrow> headerList \<Rightarrow> headerList" where
  "hdelete name hs = filter (\<lambda>h. \<not> sameName (fst h) name) hs"

definition hset :: "string \<Rightarrow> string \<Rightarrow> headerList \<Rightarrow> headerList" where
  "hset name v hs = hdelete name hs @ [(asciiLower name, v)]"

definition truthy :: "string option \<Rightarrow> bool" where
  \<comment> \<open>a \<^verbatim>\<open>string | null\<close> used as a condition: \<^verbatim>\<open>null\<close>, \<^verbatim>\<open>undefined\<close> and \<^verbatim>\<open>""\<close> are false\<close>
  "truthy v \<longleftrightarrow> (case v of None \<Rightarrow> False | Some s \<Rightarrow> s \<noteq> [])"

section \<open>Data model: link records, the store, the network, responses\<close>

record linkRecord =
  url :: string
  key :: string
  filename :: string

type_synonym bytes = "nat list"

record fetchRequest =
  fmethod :: string
  furl :: string
  fheaders :: headerList

record upstream =
  ustatus :: nat
  uheaders :: headerList
  ubody :: "bytes option"

datatype fetchResult = Rejected string | Resolved upstream

text \<open>The network answers a fetch: the promise rejects (with a message) or resolves.\<close>

type_synonym network = "fetchRequest \<Rightarrow> fetchResult"

definition ok :: "upstream \<Rightarrow> bool" where
  "ok up \<longleftrightarrow> 200 \<le> ustatus up \<and> ustatus up \<le> 299"

text \<open>
  What a handler does besides answering is recorded in order: each call of the
  key-value store under the prefix \<^verbatim>\<open>links\<close>, each fetch, each console line.
\<close>

datatype event =
    KvGet string
  | KvSet string linkRecord
  | KvDelete string
  | KvList
  | Fetch fetchRequest
  | ConsoleLog string
  | ConsoleError string

record world =
  kv :: "string \<rightharpoonup> linkRecord"
  trace :: "event list"

definition emit :: "event \<Rightarrow> world \<Rightarrow> world" where
  "emit e w = w\<lparr>trace := trace w @ [e]\<rparr>"

definition kvSet :: "string \<Rightarrow> linkRecord \<Rightarrow> world \<Rightarrow> world" where
  "kvSet k r w = emit (KvSet k r) (w\<lparr>kv := (kv w)(k \<mapsto> r)\<rparr>)"

definition kvDelete :: "string \<Rightarrow> world \<Rightarrow> world" where
  "kvDelete k w = emit (KvDelete k) (w\<lparr>kv := (kv w)(k := None)\<rparr>)"

text \<open>
  A response body is a text, an HTML page (its title and the values put into its
  template, in order; the markup itself is presentation), the bytes of an upstream body
  passed on, or nothing.
\<close>

datatype payload = Text string | Html string "string list" | Stream bytes | Empty

record response =
  status :: nat
  headers :: headerList
  body :: payload

datatype error = TypeError string | RangeError string | FetchFailed string

text \<open>
  \<^verbatim>\<open>new Response(body, {status, headers})\<close> throws for a status outside 200..599 and for a
  body given with a null-body status.
\<close>

definition nullBodyStatus :: "nat \<Rightarrow> bool" where
  "nullBodyStatus s \<longleftrightarrow> s \<in> {101, 103, 204, 205, 304}"

definition newResponse :: "payload \<Rightarrow> nat \<Rightarrow> headerList \<Rightarrow> error + response" where
  "newResponse b s hs =
     (if s < 200 \<or> 599 < s then Inl (RangeError ''status'')
      else if b \<noteq> Empty \<and> nullBodyStatus s then Inl (TypeError ''null body status'')
      else Inr \<lparr>status = s, headers = hs, body = b\<rparr>)"

definition textResponse :: "string \<Rightarrow> nat \<Rightarrow> error + response" where
  \<comment> \<open>\<^verbatim>\<open>new Response("...", { status })\<close>: a string body brings its own content type\<close>
  "textResponse msg s = newResponse (Text msg) s [(''content-type'', ''text/plain;charset=UTF-8'')]"

definition serveHtmlResponse :: "string \<Rightarrow> string list \<Rightarrow> nat \<Rightarrow> error + response" where
  "serveHtmlResponse title bodyContent s =
     newResponse (Html title bodyContent) s (hset ''Content-Type'' ''text/html'' [])"

definition relayBody :: "bytes option \<Rightarrow> payload" where
  "relayBody b = (case b of None \<Rightarrow> Empty | Some bs \<Rightarrow> Stream bs)"

record request =
  httpMethod :: string
  origin :: string
  pathname :: string
  searchKey :: "string option"
  reqHeaders :: headerList
  form :: "(string \<times> string) list option"

text \<open>
  \<^verbatim>\<open>searchKey\<close> is \<^verbatim>\<open>url.searchParams.get("key")\<close>; \<^verbatim>\<open>form\<close> is the parsed body of
  \<^verbatim>\<open>req.formData()\<close>, \<^verbatim>\<open>None\<close> when the body is no form and the call throws;
  \<^verbatim>\<open>formData.get\<close> returns the first value of a field, or \<^verbatim>\<open>null\<close>.
\<close>

definition formGet :: "string \<Rightarrow> (string \<times> string) list \<Rightarrow> string option" where
  "formGet name fd = map_of fd name"

definition showNullable :: "string option \<Rightarrow> string" where
  "showNullable v = (case v of None \<Rightarrow> ''null'' | Some s \<Rightarrow> s)"

section \<open>The access guard\<close>

text \<open>
  \<^verbatim>\<open>ADMIN_PASSWORD\<close> is \<^verbatim>\<open>Deno.env.get("MASTER_PASSWORD")\<close>, read once when the module
  loads: \<^verbatim>\<open>None\<close> when the variable is unset. \<^verbatim>\<open>checkAdminAuth\<close> tests
  \<^verbatim>\<open>!ADMIN_PASSWORD\<close> first and writes the console line itself.
\<close>

definition checkAdminAuth :: "string option \<Rightarrow> world \<Rightarrow> string option \<Rightarrow> world \<times> bool" where
  "checkAdminAuth ADMIN_PASSWORD w k =
     (if \<not> truthy ADMIN_PASSWORD
      then (emit (ConsoleError ''CRITICAL: MASTER_PASSWORD is not set in Environment Variables.'') w,
            False)
      else (w, k = ADMIN_PASSWORD))"

section \<open>Slug normalization\<close>

text \<open>
  The chain of calls that computes \<^verbatim>\<open>slug\<close> from \<^verbatim>\<open>custom_id\<close> in
  \<^verbatim>\<open>generateLinkHandler\<close>: \<^verbatim>\<open>trim\<close>, \<^verbatim>\<open>toLowerCase\<close>, then four \<^verbatim>\<open>replace\<close> calls with the
  patterns \<^verbatim>\<open>/[^a-z0-9\s-]/g\<close>, \<^verbatim>\<open>/\s+/g\<close>, \<^verbatim>\<open>/-+/g\<close> and \<^verbatim>\<open>/^-+|-+$/g\<close>.
\<close>

definition slugClass :: "char \<Rightarrow> bool" where
  \<comment> \<open>the class \<^verbatim>\<open>[a-z0-9\s-]\<close>\<close>
  "slugClass c \<longleftrightarrow> isLowerAZ c \<or> isDigit c \<or> isSpace c \<or> isHyphen c"

definition normalizeSlug :: "string \<Rightarrow> string" where
  "normalizeSlug custom_id =
     stripEnds isHyphen
       (replaceRuns isHyphen ''-''
         (replaceRuns isSpace ''-''
           (replaceEach (\<lambda>c. \<not> slugClass c) ''-''
             (toLowerCase (trim custom_id)))))"

text \<open>The algorithm in the words of the specification, step by step, with no \<^verbatim>\<open>trim\<close>.\<close>

definition normalizeBySpec :: "string \<Rightarrow> string" where
  "normalizeBySpec label =
     stripEnds isHyphen
       (replaceRuns isHyphen ''-''
         (replaceRuns isSpace ''-''
           (replaceRuns (\<lambda>c. \<not> slugClass c) ''-''
             (toLowerCase label))))"

fun noDoubleHyphen :: "string \<Rightarrow> bool" where
  "noDoubleHyphen (a # b # cs) \<longleftrightarrow> \<not> (isHyphen a \<and> isHyphen b) \<and> noDoubleHyphen (b # cs)"
| "noDoubleHyphen cs \<longleftrightarrow> True"

definition urlSafeSlug :: "string \<Rightarrow> bool" where
  \<comment> \<open>lowercase ASCII letters, digits and hyphens; no hyphen first, last or twice in a row\<close>
  "urlSafeSlug s \<longleftrightarrow>
     s \<noteq> [] \<and> list_all (\<lambda>c. isLowerAZ c \<or> isDigit c \<or> isHyphen c) s \<and>
     \<not> isHyphen (hd s) \<and> \<not> isHyphen (last s) \<and> noDoubleHyphen s"

section \<open>The handlers\<close>

definition homepageHandler :: "error + response" where
  "homepageHandler = serveHtmlResponse ''Link Generator'' [] 200"

definition streamVideoHandler ::
  "network \<Rightarrow> world \<Rightarrow> request \<Rightarrow> string \<Rightarrow> string \<Rightarrow> world \<times> (error + response)" where
  "streamVideoHandler net w req slugId k =
     (let w1 = emit (KvGet slugId) w
      in case kv w slugId of
           None \<Rightarrow> (w1, textResponse ''Link not found or expired'' 404)
         | Some rcd \<Rightarrow>
             if key rcd \<noteq> k then (w1, textResponse ''Invalid security key'' 403)
             else
               let range = hget ''Range'' (reqHeaders req);
                   fetchHeaders = (if truthy range then hset ''Range'' (showNullable range) [] else []);
                   w2 = emit (ConsoleLog (''Streaming (Range: ''
                          @ (if truthy range then showNullable range else ''none'')
                          @ ''): '' @ url rcd)) w1;
                   rq = \<lparr>fmethod = ''GET'', furl = url rcd, fheaders = fetchHeaders\<rparr>;
                   w3 = emit (Fetch rq) w2
               in (case net rq of
                     Rejected msg \<Rightarrow> (w3, Inl (FetchFailed msg))
                   | Resolved upstreamResponse \<Rightarrow>
                       if \<not> ok upstreamResponse
                       then (w3, textResponse ''Failed to fetch upstream resource''
                                   (ustatus upstreamResponse))
                       else
                         let responseHeaders =
                               hdelete ''Content-Disposition''
                                 (hset ''Accept-Ranges'' ''bytes'' (uheaders upstreamResponse))
                         in (w3, newResponse (relayBody (ubody upstreamResponse))
                                   (ustatus upstreamResponse) responseHeaders)))"

definition fallbackSafe :: "char \<Rightarrow> bool" where
  \<comment> \<open>the class \<^verbatim>\<open>[a-zA-Z0-9.\-_ ]\<close>\<close>
  "fallbackSafe c \<longleftrightarrow>
     isLowerAZ c \<or> isUpperAZ c \<or> isDigit c \<or> c = CHR ''.'' \<or> c = CHR ''-'' \<or> c = CHR ''_''
     \<or> c = CHR '' ''"

definition uriUnreserved :: "char \<Rightarrow> bool" where
  \<comment> \<open>what \<^verbatim>\<open>encodeURIComponent\<close> leaves alone: letters, digits and \<^verbatim>\<open>- _ . ! ~ * ' ( )\<close>\<close>
  "uriUnreserved c \<longleftrightarrow>
     isLowerAZ c \<or> isUpperAZ c \<or> isDigit c \<or>
     c \<in> {CHR ''-'', CHR ''_'', CHR ''.'', CHR ''!'', CHR ''~'', CHR ''*'', CHR 0x27, CHR ''('', CHR '')''}"

definition utf8 :: "char \<Rightarrow> nat list" where
  \<comment> \<open>the UTF-8 bytes of a code point below 256: one byte below 128, two from there on\<close>
  "utf8 c = (let n = (of_char c :: nat) in if n < 128 then [n] else [192 + n div 64, 128 + n mod 64])"

definition hexDigit :: "nat \<Rightarrow> char" where
  "hexDigit d = (if d < 10 then char_of (48 + d) else char_of (55 + d))"

definition percentByte :: "nat \<Rightarrow> string" where
  "percentByte b = [CHR ''%'', hexDigit (b div 16), hexDigit (b mod 16)]"

definition encodeURIComponent :: "string \<Rightarrow> string" where
  "encodeURIComponent s =
     concat (map (\<lambda>c. if uriUnreserved c then [c] else concat (map percentByte (utf8 c))) s)"

definition contentDisposition :: "string \<Rightarrow> string" where
  \<comment> \<open>the template literal \<^verbatim>\<open>attachment; filename="..."; filename*=UTF-8''...\<close>\<close>
  "contentDisposition fname =
     (let fallbackFilename = replaceEach (\<lambda>c. \<not> fallbackSafe c) ''_'' fname;
          encodedFilename = encodeURIComponent fname
      in ''attachment; filename='' @ [CHR 0x22] @ fallbackFilename @ [CHR 0x22]
         @ ''; filename*=UTF-8'' @ [CHR 0x27, CHR 0x27] @ encodedFilename)"

definition downloadVideoHandler ::
  "network \<Rightarrow> world \<Rightarrow> request \<Rightarrow> string \<Rightarrow> string \<Rightarrow> world \<times> (error + response)" where
  "downloadVideoHandler net w req slugId k =
     (let w1 = emit (KvGet slugId) w
      in case kv w slugId of
           None \<Rightarrow> (w1, textResponse ''Link not found or expired'' 404)
         | Some rcd \<Rightarrow>
             if key rcd \<noteq> k then (w1, textResponse ''Invalid security key'' 403)
             else
               let w2 = emit (ConsoleLog (''Fetching for download: '' @ url rcd)) w1;
                   rq = \<lparr>fmethod = ''GET'', furl = url rcd, fheaders = []\<rparr>;
                   w3 = emit (Fetch rq) w2
               in (case net rq of
                    Rejected msg \<Rightarrow> (w3, Inl (FetchFailed msg))
                  | Resolved upstreamResponse \<Rightarrow>
                      if \<not> ok upstreamResponse \<or> ubody upstreamResponse = None
                      then (w3, textResponse ''Failed to fetch upstream resource''
                                  (ustatus upstreamResponse))
                      else
                        let h1 = hset ''Content-Disposition'' (contentDisposition (filename rcd)) [];
                            h2 = hset ''Content-Type'' ''application/octet-stream'' h1;
                            contentLength = hget ''Content-Length'' (uheaders upstreamResponse);
                            responseHeaders =
                              (if truthy contentLength
                               then hset ''Content-Length'' (showNullable contentLength) h2
                               else h2)
                        in (w3, newResponse (relayBody (ubody upstreamResponse)) 200
                                  responseHeaders)))"

text \<open>
  \<^verbatim>\<open>generateLinkHandler\<close> in two parts, cut where it awaits \<^verbatim>\<open>kv.set\<close>. The first part
  reads the form, validates, looks the slug up and settles the filename; it ends with a
  response, or with the slug and the record to write. The \<^verbatim>\<open>try\<close> block with the HEAD
  request is \<open>detectFilename\<close>: only a rejected fetch reaches the \<^verbatim>\<open>catch\<close>.
\<close>

definition detectFilename :: "network \<Rightarrow> world \<Rightarrow> string \<Rightarrow> string \<Rightarrow> world \<times> string" where
  "detectFilename net w target slug =
     (let w1 = emit (ConsoleLog (''Auto-detecting filename for: '' @ target)) w;
          rq = \<lparr>fmethod = ''HEAD'', furl = target, fheaders = []\<rparr>;
          w2 = emit (Fetch rq) w1
      in case net rq of
           Rejected msg \<Rightarrow>
             (emit (ConsoleError (''HEAD request failed: '' @ msg)) w2, slug @ ''.mp4'')
         | Resolved resp \<Rightarrow>
             let contentType = hget ''Content-Type'' (uheaders resp);
                 extension = mapContentTypeToExtension contentType;
                 finalFilename = slug @ extension
             in (emit (ConsoleLog (''Detected Content-Type: '' @ showNullable contentType
                         @ '', Assigned Filename: '' @ finalFilename)) w2,
                 finalFilename))"

definition prepareLink ::
  "network \<Rightarrow> world \<Rightarrow> request \<Rightarrow> world \<times> ((error + response) + string \<times> linkRecord)" where
  "prepareLink net w req =
     (case form req of
        None \<Rightarrow> (w, Inl (Inl (TypeError ''formData'')))
      | Some formData \<Rightarrow>
          let url = formGet ''url'' formData;
              key = formGet ''key'' formData;
              custom_id = formGet ''custom_id'' formData;
              filename_override = map_option trim (formGet ''filename'' formData)
          in (case custom_id of
                None \<Rightarrow> (w, Inl (Inl (TypeError ''custom_id is null'')))
              | Some label \<Rightarrow>
                  let slug = normalizeSlug label
                  in if \<not> truthy url \<or> \<not> truthy key \<or> slug = []
                     then (w, Inl (serveHtmlResponse ''Error'' [] 400))
                     else
                       let w1 = emit (KvGet slug) w
                       in (case kv w slug of
                             Some existing \<Rightarrow>
                               (w1, Inl (serveHtmlResponse ''Link Name Taken'' [slug] 409))
                           | None \<Rightarrow>
                               let (w2, finalFilename) =
                                     (if truthy filename_override
                                      then (w1, showNullable filename_override)
                                      else detectFilename net w1 (showNullable url) slug)
                               in (w2, Inr (slug, \<lparr>url = showNullable url,
                                                   key = showNullable key,
                                                   filename = finalFilename\<rparr>)))))"

definition storeLink :: "world \<Rightarrow> request \<Rightarrow> string \<times> linkRecord \<Rightarrow> world \<times> (error + response)" where
  "storeLink w req p =
     (let slug = fst p; rcd = snd p;
          w1 = kvSet slug rcd w;
          baseUrl = origin req;
          streamLink = baseUrl @ ''/stream/'' @ slug @ ''?key='' @ key rcd;
          downloadLink = baseUrl @ ''/download/'' @ slug @ ''?key='' @ key rcd
      in (w1, serveHtmlResponse ''Link Generated''
                [filename rcd, streamLink, streamLink, downloadLink, downloadLink] 200))"

definition generateLinkHandler :: "network \<Rightarrow> world \<Rightarrow> request \<Rightarrow> world \<times> (error + response)" where
  "generateLinkHandler net w req =
     (case prepareLink net w req of
        (w1, Inl out) \<Rightarrow> (w1, out)
      | (w1, Inr p) \<Rightarrow> storeLink w1 req p)"

definition adminPageHandler :: "string option \<Rightarrow> world \<Rightarrow> request \<Rightarrow> world \<times> (error + response)" where
  \<comment> \<open>the rows of the dashboard are the entries \<^verbatim>\<open>kv.list\<close> yields, rendered\<close>
  "adminPageHandler ADMIN_PASSWORD w req =
     (if \<not> truthy ADMIN_PASSWORD then (w, serveHtmlResponse ''Error'' [] 500)
      else
        let (w1, authorized) = checkAdminAuth ADMIN_PASSWORD w (searchKey req)
        in if \<not> authorized then (w1, serveHtmlResponse ''Admin Login'' [] 200)
           else (emit KvList w1, serveHtmlResponse ''Admin Dashboard'' [] 200))"

text \<open>
  \<^verbatim>\<open>Response.redirect(url, 303)\<close> parses \<^verbatim>\<open>url\<close> and puts the serialized URL in
  \<^verbatim>\<open>Location\<close>. \<open>href\<close> is that serialization for an input whose part before the first
  \<^verbatim>\<open>?\<close> or \<^verbatim>\<open>#\<close> is a serialized http(s) URL already, as \<^verbatim>\<open>url.origin + "/admin"\<close> is:
  control characters and spaces at either end are dropped, then every tab and newline;
  the query runs to the first \<^verbatim>\<open>#\<close> and the fragment from there, each percent-encoded as
  UTF-8 with its own set of characters.
\<close>

definition c0ControlOrSpace :: "char \<Rightarrow> bool" where
  "c0ControlOrSpace c \<longleftrightarrow> (of_char c :: nat) \<le> 32"

definition tabOrNewline :: "char \<Rightarrow> bool" where
  "tabOrNewline c \<longleftrightarrow> (of_char c :: nat) \<in> {9, 10, 13}"

definition c0ControlSet :: "char \<Rightarrow> bool" where
  \<comment> \<open>the C0 control percent-encode set: the C0 controls and everything above \<^verbatim>\<open>~\<close>\<close>
  "c0ControlSet c \<longleftrightarrow> (of_char c :: nat) \<le> 31 \<or> 126 < (of_char c :: nat)"

definition specialQuerySet :: "char \<Rightarrow> bool" where
  \<comment> \<open>the special-query percent-encode set: space, \<^verbatim>\<open>" # < >\<close> and \<^verbatim>\<open>'\<close> added\<close>
  "specialQuerySet c \<longleftrightarrow>
     c0ControlSet c \<or>
     c \<in> {CHR '' '', CHR 0x22, CHR ''#'', CHR ''<'', CHR ''>'', CHR 0x27}"

definition fragmentSet :: "char \<Rightarrow> bool" where
  \<comment> \<open>the fragment percent-encode set: space, \<^verbatim>\<open>" < >\<close> and the backtick added\<close>
  "fragmentSet c \<longleftrightarrow>
     c0ControlSet c \<or> c \<in> {CHR '' '', CHR 0x22, CHR ''<'', CHR ''>'', CHR 0x60}"

definition percentEncode :: "(char \<Rightarrow> bool) \<Rightarrow> string \<Rightarrow> string" where
  "percentEncode S s =
     concat (map (\<lambda>c. if S c then concat (map percentByte (utf8 c)) else [c]) s)"

definition href :: "string \<Rightarrow> string" where
  "href input =
     (let i = filter (\<lambda>c. \<not> tabOrNewline c) (stripEnds c0ControlOrSpace input);
          base = takeWhile (\<lambda>c. c \<noteq> CHR ''?'' \<and> c \<noteq> CHR ''#'') i;
          rest = dropWhile (\<lambda>c. c \<noteq> CHR ''?'' \<and> c \<noteq> CHR ''#'') i
      in base @
         (case rest of
            [] \<Rightarrow> []
          | c # cs \<Rightarrow>
              if c = CHR ''?''
              then ''?'' @ percentEncode specialQuerySet (takeWhile (\<lambda>c. c \<noteq> CHR ''#'') cs)
                   @ (case dropWhile (\<lambda>c. c \<noteq> CHR ''#'') cs of
                        [] \<Rightarrow> []
                      | h # fs \<Rightarrow> ''#'' @ percentEncode fragmentSet fs)
              else ''#'' @ percentEncode fragmentSet cs))"

definition redirect :: "string \<Rightarrow> nat \<Rightarrow> error + response" where
  "redirect target s =
     Inr \<lparr>status = s, headers = [(''location'', href target)], body = Empty\<rparr>"

definition deleteLinkHandler :: "string option \<Rightarrow> world \<Rightarrow> request \<Rightarrow> world \<times> (error + response)" where
  "deleteLinkHandler ADMIN_PASSWORD w req =
     (let (w1, authorized) = checkAdminAuth ADMIN_PASSWORD w (searchKey req)
      in if \<not> authorized then (w1, textResponse ''Unauthorized'' 403)
         else
           (case form req of
              None \<Rightarrow> (w1, Inl (TypeError ''formData''))
            | Some formData \<Rightarrow>
                let ident = formGet ''id'' formData;
                    w2 = (if truthy ident
                          then emit (ConsoleLog (''Deleted link with Custom Name (ID): ''
                                       @ showNullable ident))
                                 (kvDelete (showNullable ident) w1)
                          else w1)
                in (w2, redirect (origin req @ ''/admin?key='' @ showNullable (searchKey req)) 303)))"

section \<open>The router\<close>

text \<open>
  \<^verbatim>\<open>new URLPattern({ pathname: "/download/:id" })\<close> matches a path that is the prefix
  followed by one non-empty segment with no slash in it; the segment is the group \<^verbatim>\<open>id\<close>.
\<close>

definition matchSegment :: "string \<Rightarrow> string \<Rightarrow> string option" where
  "matchSegment prefix path =
     (let seg = drop (length prefix) path
      in if take (length prefix) path = prefix \<and> seg \<noteq> [] \<and> CHR ''/'' \<notin> set seg
         then Some seg else None)"

definition missingKey :: "error + response" where
  "missingKey = textResponse (''Missing '' @ [CHR 0x27] @ ''key'' @ [CHR 0x27] @ '' parameter'') 401"

definition serve ::
  "string option \<Rightarrow> network \<Rightarrow> world \<Rightarrow> request \<Rightarrow> world \<times> (error + response)" where
  "serve ADMIN_PASSWORD net w req =
     (let downloadMatch = matchSegment ''/download/'' (pathname req);
          streamMatch = matchSegment ''/stream/'' (pathname req)
      in if pathname req = ''/'' \<and> httpMethod req = ''GET'' then (w, homepageHandler)
         else if pathname req = ''/generate'' \<and> httpMethod req = ''POST''
           then generateLinkHandler net w req
         else if pathname req = ''/admin'' \<and> httpMethod req = ''GET''
           then adminPageHandler ADMIN_PASSWORD w req
         else if pathname req = ''/delete'' \<and> httpMethod req = ''POST''
           then deleteLinkHandler ADMIN_PASSWORD w req
         else if streamMatch \<noteq> None \<and> httpMethod req = ''GET''
           then (if \<not> truthy (searchKey req) then (w, missingKey)
                 else streamVideoHandler net w req (showNullable streamMatch)
                        (showNullable (searchKey req)))
         else if downloadMatch \<noteq> None \<and> httpMethod req = ''GET''
           then (if \<not> truthy (searchKey req) then (w, missingKey)
                 else downloadVideoHandler net w req (showNullable downloadMatch)
                        (showNullable (searchKey req)))
         else (w, textResponse ''404 Not Found'' 404))"

section \<open>Reading an outcome, and sample data\<close>

text \<open>
  A handler ends with a response or with an exception nobody catches; \<open>statusOf\<close> is the
  status code of the response when there is one.
\<close>

definition statusOf :: "error + response \<Rightarrow> nat option" where
  "statusOf out = (case out of Inl e \<Rightarrow> None | Inr r \<Rightarrow> Some (status r))"

definition exampleRecord :: linkRecord where
  "exampleRecord = \<lparr>url = ''https://ex.com/a.bin'', key = ''s3cret'', filename = ''clip.mp4''\<rparr>"

definition exampleWorld :: world where
  "exampleWorld = \<lparr>kv = [''clip-one'' \<mapsto> exampleRecord], trace = []\<rparr>"

definition exampleGet :: "string \<Rightarrow> string option \<Rightarrow> headerList \<Rightarrow> request" where
  "exampleGet path k hs =
     \<lparr>httpMethod = ''GET'', origin = ''https://links.example'', pathname = path,
      searchKey = k, reqHeaders = hs, form = None\<rparr>"

definition examplePost :: "string \<Rightarrow> string option \<Rightarrow> (string \<times> string) list \<Rightarrow> request" where
  "examplePost path k fd =
     \<lparr>httpMethod = ''POST'', origin = ''https://links.example'', pathname = path,
      searchKey = k, reqHeaders = [], form = Some fd\<rparr>"

definition deadNetwork :: network where
  "deadNetwork rq = Rejected ''connection refused''"

section \<open>Notions the statements below are written in\<close>

text \<open>
  The characters a slug is built from, and every other character, which separates.
\<close>

definition isAlnum :: "char \<Rightarrow> bool" where
  "isAlnum c \<longleftrightarrow> isLowerAZ c \<or> isDigit c"

definition isSeparator :: "char \<Rightarrow> bool" where
  "isSeparator c \<longleftrightarrow> \<not> isAlnum c"



text \<open>More sample data: an empty store, and two upstream servers.\<close>

definition emptyWorld :: world where
  "emptyWorld = \<lparr>kv = Map.empty, trace = []\<rparr>"

definition notFoundProbe :: network where
  \<comment> \<open>answers every request 404, with a content type of the table\<close>
  "notFoundProbe rq =
     Resolved \<lparr>ustatus = 404, uheaders = [(''content-type'', ''application/octet-stream'')],
               ubody = None\<rparr>"

definition rangeNetwork :: network where
  \<comment> \<open>honours the range \<^verbatim>\<open>bytes=0-99\<close> with 206, answers everything else 200\<close>
  "rangeNetwork rq =
     (if hget ''Range'' (fheaders rq) = Some ''bytes=0-99''
      then Resolved \<lparr>ustatus = 206,
                     uheaders = [(''content-type'', ''video/mp4''),
                                 (''content-range'', ''bytes 0-99/1000''),
                                 (''content-length'', ''100''),
                                 (''content-disposition'', ''attachment; filename=a.bin'')],
                     ubody = Some (replicate 100 0)\<rparr>
      else Resolved \<lparr>ustatus = 200,
                     uheaders = [(''content-type'', ''video/mp4''), (''content-length'', ''1000'')],
                     ubody = Some (replicate 1000 0)\<rparr>)"

section \<open>The earlier revisions under src\<close>

text \<open>
  The first module of \<^verbatim>\<open>src/unnamed/part_001\<close> is the module embedded above without the
  \<^verbatim>\<open>/stream\<close> route. \<^verbatim>\<open>src/main.ts\<close> and \<^verbatim>\<open>src/unnamed/part_000\<close> are older: they have no
  \<^verbatim>\<open>/stream\<close> route either, they require a filename and make no HEAD request, and two
  things they compute differently. The slug: symbols are removed, not replaced, and
  hyphens are neither collapsed nor stripped. The \<^verbatim>\<open>Content-Disposition\<close> of a download:
  the stored filename as it is, with no \<^verbatim>\<open>filename*\<close>.
\<close>

definition normalizeSlugEarlier :: "string \<Rightarrow> string" where
  \<comment> \<open>\<^verbatim>\<open>custom_id.trim().toLowerCase().replace(/[^a-z0-9\s-]/g, '').replace(/\s+/g, '-')\<close>\<close>
  "normalizeSlugEarlier custom_id =
     replaceRuns isSpace ''-''
       (replaceEach (\<lambda>c. \<not> slugClass c) [] (toLowerCase (trim custom_id)))"

definition contentDispositionEarlier :: "string \<Rightarrow> string" where
  \<comment> \<open>the template literal \<^verbatim>\<open>attachment; filename="${filename}"\<close>\<close>
  "contentDispositionEarlier fname = ''attachment; filename='' @ [CHR 0x22] @ fname @ [CHR 0x22]"

section \<open>The content-type resolver: results\<close>

lemma mapContentType_eq_spec: "mapContentTypeToExtension ct = resolveBySpec ct"
proof (cases ct)
  case None
  then show ?thesis by (simp add: mapContentTypeToExtension_def resolveBySpec_def)
next
  case (Some s)
  show ?thesis
  proof (cases "s = []")
    case True
    with Some show ?thesis
      by (simp add: mapContentTypeToExtension_def resolveBySpec_def firstField_def trim_def
          extensionTable_def)
  next
    case False
    with Some show ?thesis
      by (simp add: mapContentTypeToExtension_def resolveBySpec_def extensionTable_def Let_def)
  qed
qed

lemma resolveBySpec_nonempty: "resolveBySpec ct \<noteq> []"
  by (auto simp: resolveBySpec_def extensionTable_def split: option.splits if_splits)

text \<open>
  C7. The resolver cuts the value at the first \<^verbatim>\<open>;\<close>, trims it, and looks it up in the
  fixed table: \<^verbatim>\<open>video/mp4\<close> gives \<^verbatim>\<open>.mp4\<close>, \<^verbatim>\<open>video/x-matroska\<close> gives \<^verbatim>\<open>.mkv\<close>,
  \<^verbatim>\<open>video/webm\<close> gives \<^verbatim>\<open>.webm\<close>, \<^verbatim>\<open>video/quicktime\<close> gives \<^verbatim>\<open>.mov\<close>,
  \<^verbatim>\<open>application/octet-stream\<close> gives \<^verbatim>\<open>.bin\<close>; every other value, and no value, gives
  \<^verbatim>\<open>.mp4\<close>. The result is never empty.
\<close>

theorem C7_content_type_resolver:
  "mapContentTypeToExtension ct = resolveBySpec ct
   \<and> mapContentTypeToExtension None = ''.mp4''
   \<and> (trim (firstField (CHR '';'') s1) = ''video/mp4''
        \<longrightarrow> mapContentTypeToExtension (Some s1) = ''.mp4'')
   \<and> (trim (firstField (CHR '';'') s2) = ''video/x-matroska''
        \<longrightarrow> mapContentTypeToExtension (Some s2) = ''.mkv'')
   \<and> (trim (firstField (CHR '';'') s3) = ''video/webm''
        \<longrightarrow> mapContentTypeToExtension (Some s3) = ''.webm'')
   \<and> (trim (firstField (CHR '';'') s4) = ''video/quicktime''
        \<longrightarrow> mapContentTypeToExtension (Some s4) = ''.mov'')
   \<and> (trim (firstField (CHR '';'') s5) = ''application/octet-stream''
        \<longrightarrow> mapContentTypeToExtension (Some s5) = ''.bin'')
   \<and> (trim (firstField (CHR '';'') s6) \<notin> fst ` set extensionTable
        \<longrightarrow> mapContentTypeToExtension (Some s6) = ''.mp4'')
   \<and> mapContentTypeToExtension ct \<noteq> []"
proof -
  have tab: "\<And>s. mapContentTypeToExtension (Some s)
      = (case map_of extensionTable (trim (firstField (CHR '';'') s)) of
           Some ext \<Rightarrow> ext | None \<Rightarrow> ''.mp4'')"
    by (simp add: mapContentType_eq_spec resolveBySpec_def)
  have other: "trim (firstField (CHR '';'') s6) \<notin> fst ` set extensionTable
      \<longrightarrow> mapContentTypeToExtension (Some s6) = ''.mp4''"
    by (simp add: tab map_of_eq_None_iff[THEN iffD2])
  show ?thesis
    using other
    by (simp add: mapContentType_eq_spec resolveBySpec_nonempty)
       (simp add: resolveBySpec_def extensionTable_def)
qed

theorem C7_content_type_resolver_witness:
  "trim (firstField (CHR '';'') ''video/mp4; codecs=avc1'') = ''video/mp4''
   \<and> mapContentTypeToExtension (Some ''video/mp4; codecs=avc1'') = ''.mp4''
   \<and> mapContentTypeToExtension (Some ''video/x-matroska'') = ''.mkv''
   \<and> trim (firstField (CHR '';'') '' video/webm ; charset=x'') = ''video/webm''
   \<and> mapContentTypeToExtension (Some '' video/webm ; charset=x'') = ''.webm''
   \<and> mapContentTypeToExtension (Some ''video/quicktime'') = ''.mov''
   \<and> mapContentTypeToExtension (Some ''application/octet-stream'') = ''.bin''
   \<and> trim (firstField (CHR '';'') ''text/html; charset=utf-8'') \<notin> fst ` set extensionTable
   \<and> mapContentTypeToExtension (Some ''text/html; charset=utf-8'') = ''.mp4''"
proof -
  have h1: "trim (firstField (CHR '';'') ''video/mp4; codecs=avc1'') = ''video/mp4''"
    by code_simp
  have h2: "trim (firstField (CHR '';'') ''video/x-matroska'') = ''video/x-matroska''"
    by code_simp
  have h3: "trim (firstField (CHR '';'') '' video/webm ; charset=x'') = ''video/webm''"
    by code_simp
  have h4: "trim (firstField (CHR '';'') ''video/quicktime'') = ''video/quicktime''"
    by code_simp
  have h5: "trim (firstField (CHR '';'') ''application/octet-stream'')
            = ''application/octet-stream''"
    by code_simp
  have h6: "trim (firstField (CHR '';'') ''text/html; charset=utf-8'')
            \<notin> fst ` set extensionTable"
    by code_simp
  show ?thesis
    using C7_content_type_resolver [of None "''video/mp4; codecs=avc1''" "''video/x-matroska''"
      "'' video/webm ; charset=x''" "''video/quicktime''" "''application/octet-stream''"
      "''text/html; charset=utf-8''"] h1 h2 h3 h4 h5 h6
    by simp
qed

section \<open>Status codes of the fixed responses\<close>

lemma statusOf_textResponse:
  "200 \<le> s \<Longrightarrow> s \<le> 599 \<Longrightarrow> \<not> nullBodyStatus s \<Longrightarrow> statusOf (textResponse msg s) = Some s"
  by (simp add: statusOf_def textResponse_def newResponse_def)

lemma statusOf_serveHtmlResponse:
  "200 \<le> s \<Longrightarrow> s \<le> 599 \<Longrightarrow> \<not> nullBodyStatus s
   \<Longrightarrow> statusOf (serveHtmlResponse title vs s) = Some s"
  by (simp add: statusOf_def serveHtmlResponse_def newResponse_def)

section \<open>The access guard and the order of the checks\<close>

text \<open>
  C3. With \<^verbatim>\<open>MASTER_PASSWORD\<close> unset, \<^verbatim>\<open>checkAdminAuth\<close> returns false for every key and
  writes the CRITICAL line to the console; the admin page answers with the error page
  (status 500), never the dashboard; every delete request is answered 403, the console
  line is in the trace, and the store is as it was.
\<close>

theorem C3_admin_check_fails_closed:
  "checkAdminAuth None w k
     = (emit (ConsoleError ''CRITICAL: MASTER_PASSWORD is not set in Environment Variables.'') w,
        False)
   \<and> adminPageHandler None w req = (w, serveHtmlResponse ''Error'' [] 500)
   \<and> statusOf (serveHtmlResponse ''Error'' [] 500) = Some 500
   \<and> deleteLinkHandler None w req
     = (emit (ConsoleError ''CRITICAL: MASTER_PASSWORD is not set in Environment Variables.'') w,
        textResponse ''Unauthorized'' 403)
   \<and> statusOf (textResponse ''Unauthorized'' 403) = Some 403
   \<and> kv (fst (deleteLinkHandler None w req)) = kv w
   \<and> ConsoleError ''CRITICAL: MASTER_PASSWORD is not set in Environment Variables.''
       \<in> set (trace (fst (deleteLinkHandler None w req)))"
  by (simp add: checkAdminAuth_def adminPageHandler_def deleteLinkHandler_def truthy_def emit_def
      statusOf_textResponse statusOf_serveHtmlResponse nullBodyStatus_def)

theorem C3_admin_check_fails_closed_witness:
  "checkAdminAuth None exampleWorld (Some ''letmein'')
     = (emit (ConsoleError ''CRITICAL: MASTER_PASSWORD is not set in Environment Variables.'')
          exampleWorld, False)
   \<and> kv (fst (deleteLinkHandler None exampleWorld
               (examplePost ''/delete'' (Some ''letmein'') [(''id'', ''clip-one'')])))
       ''clip-one'' = Some exampleRecord"
proof -
  note c = C3_admin_check_fails_closed [of exampleWorld "Some ''letmein''"
      "examplePost ''/delete'' (Some ''letmein'') [(''id'', ''clip-one'')]"]
  from c have a: "checkAdminAuth None exampleWorld (Some ''letmein'')
     = (emit (ConsoleError ''CRITICAL: MASTER_PASSWORD is not set in Environment Variables.'')
          exampleWorld, False)"
    by (rule conjunct1)
  from c have b: "kv (fst (deleteLinkHandler None exampleWorld
               (examplePost ''/delete'' (Some ''letmein'') [(''id'', ''clip-one'')])))
       = kv exampleWorld"
    by blast
  have "kv exampleWorld ''clip-one'' = Some exampleRecord"
    by (simp add: exampleWorld_def)
  with a b show ?thesis
    by simp
qed

text \<open>
  C2. In both relay handlers: a slug that is not in the store is answered 404, whatever the
  key; a slug that is in the store with another key than the one supplied is answered
  403. The lookup comes first, so the two cases differ in the status code.
\<close>

theorem C2_existence_before_credential:
  "(kv w slugId = None \<longrightarrow>
      streamVideoHandler net w req slugId k
        = (emit (KvGet slugId) w, textResponse ''Link not found or expired'' 404)
      \<and> downloadVideoHandler net w req slugId k
        = (emit (KvGet slugId) w, textResponse ''Link not found or expired'' 404))
   \<and> (kv w' slugId' = Some r \<and> key r \<noteq> k' \<longrightarrow>
      streamVideoHandler net w' req slugId' k'
        = (emit (KvGet slugId') w', textResponse ''Invalid security key'' 403)
      \<and> downloadVideoHandler net w' req slugId' k'
        = (emit (KvGet slugId') w', textResponse ''Invalid security key'' 403))
   \<and> statusOf (textResponse ''Link not found or expired'' 404) = Some 404
   \<and> statusOf (textResponse ''Invalid security key'' 403) = Some 403"
  by (simp add: streamVideoHandler_def downloadVideoHandler_def Let_def statusOf_textResponse
      nullBodyStatus_def)

theorem C2_existence_before_credential_witness:
  "kv exampleWorld ''no-such-link'' = None
   \<and> kv exampleWorld ''clip-one'' = Some exampleRecord \<and> key exampleRecord \<noteq> ''WRONG''
   \<and> statusOf (snd (downloadVideoHandler deadNetwork exampleWorld
                       (exampleGet ''/download/no-such-link'' (Some ''s3cret'') [])
                       ''no-such-link'' ''s3cret'')) = Some 404
   \<and> statusOf (snd (streamVideoHandler deadNetwork exampleWorld
                       (exampleGet ''/download/no-such-link'' (Some ''s3cret'') [])
                       ''clip-one'' ''WRONG'')) = Some 403"
proof -
  have absent: "kv exampleWorld ''no-such-link'' = None"
    by (simp add: exampleWorld_def)
  have present: "kv exampleWorld ''clip-one'' = Some exampleRecord \<and> key exampleRecord \<noteq> ''WRONG''"
    by (simp add: exampleWorld_def exampleRecord_def)
  show ?thesis
    using absent present
      C2_existence_before_credential [of exampleWorld "''no-such-link''" deadNetwork
        "exampleGet ''/download/no-such-link'' (Some ''s3cret'') []" "''s3cret''"
        exampleWorld "''clip-one''" exampleRecord "''WRONG''"]
    by simp
qed

lemma matchSegment_prefix:
  "matchSegment prefix path = Some seg
   \<Longrightarrow> path = prefix @ seg \<and> seg \<noteq> [] \<and> CHR ''/'' \<notin> set seg"
  by (auto simp: matchSegment_def Let_def split: if_splits) (metis append_take_drop_id)

text \<open>
  C10. A GET request for \<^verbatim>\<open>/download/:id\<close> or \<^verbatim>\<open>/stream/:id\<close> whose \<^verbatim>\<open>key\<close> parameter is
  missing or empty is answered 401 by the router itself: the world is returned as it
  was (no store call, no fetch, nothing in the trace), whatever the store holds and
  whatever the network would answer, and neither relay handler runs.
\<close>

theorem C10_missing_key_unauthorized:
  assumes "httpMethod req = ''GET''"
    and "matchSegment ''/download/'' (pathname req) = Some seg
         \<or> matchSegment ''/stream/'' (pathname req) = Some seg"
    and "searchKey req = None \<or> searchKey req = Some []"
  shows "serve ADMIN_PASSWORD net w req = (w, missingKey) \<and> statusOf missingKey = Some 401"
proof -
  from assms(2) have path:
    "pathname req = ''/download/'' @ seg \<or> pathname req = ''/stream/'' @ seg"
    by (auto dest: matchSegment_prefix)
  from assms(2) have seg: "seg \<noteq> []"
    by (auto dest: matchSegment_prefix)
  from assms(3) have nokey: "\<not> truthy (searchKey req)"
    by (auto simp: truthy_def)
  from path seg have routes: "pathname req \<noteq> ''/''" "pathname req \<noteq> ''/generate''"
    "pathname req \<noteq> ''/admin''" "pathname req \<noteq> ''/delete''"
    by auto
  have st: "statusOf missingKey = Some 401"
    by (simp add: missingKey_def statusOf_textResponse nullBodyStatus_def)
  from assms(2) have m: "matchSegment ''/stream/'' (pathname req) \<noteq> None
     \<or> matchSegment ''/download/'' (pathname req) \<noteq> None"
    by auto
  show ?thesis
    using routes nokey m assms(1) st by (auto simp: serve_def Let_def)
qed

theorem C10_missing_key_unauthorized_witness:
  "serve (Some ''letmein'') deadNetwork exampleWorld (exampleGet ''/download/clip-one'' None [])
     = (exampleWorld, missingKey)
   \<and> serve (Some ''letmein'') deadNetwork exampleWorld (exampleGet ''/stream/clip-one'' (Some []) [])
     = (exampleWorld, missingKey)
   \<and> statusOf missingKey = Some 401"
proof -
  have d: "matchSegment ''/download/'' ''/download/clip-one'' = Some ''clip-one''"
    by code_simp
  have s: "matchSegment ''/stream/'' ''/stream/clip-one'' = Some ''clip-one''"
    by code_simp
  show ?thesis
    using C10_missing_key_unauthorized [of "exampleGet ''/download/clip-one'' None []" "''clip-one''"
              "Some ''letmein''" deadNetwork exampleWorld]
          C10_missing_key_unauthorized [of "exampleGet ''/stream/clip-one'' (Some []) []" "''clip-one''"
              "Some ''letmein''" deadNetwork exampleWorld]
          d s
    by (simp add: exampleGet_def)
qed

section \<open>Characters\<close>

lemma of_char_hyphen: "(of_char (CHR ''-'') :: nat) = 45" by simp

lemma isHyphen_code: "isHyphen c \<longleftrightarrow> (of_char c :: nat) = 45"
proof
  assume "isHyphen c" then show "(of_char c :: nat) = 45" by (simp add: isHyphen_def)
next
  assume h: "(of_char c :: nat) = 45"
  have "(of_char c :: nat) = of_char (CHR ''-'')" using h by simp
  then have "c = CHR ''-''" by (simp only: of_char_eq_iff)
  then show "isHyphen c" by (simp add: isHyphen_def)
qed

lemma slugClass_alt: "slugClass c \<longleftrightarrow> isAlnum c \<or> isSpace c \<or> isHyphen c"
  by (auto simp: slugClass_def isAlnum_def)

lemma space_not_alnum: "isSpace c \<Longrightarrow> \<not> isAlnum c"
  by (auto simp: isSpace_def isAlnum_def isLowerAZ_def isDigit_def)

lemma hyphen_not_alnum: "isHyphen c \<Longrightarrow> \<not> isAlnum c"
  by (auto simp: isHyphen_code isAlnum_def isLowerAZ_def isDigit_def)

lemma hyphen_not_space: "isHyphen c \<Longrightarrow> \<not> isSpace c"
  by (auto simp: isHyphen_code isSpace_def)

lemma of_char_toLowerChar:
  "(of_char (toLowerChar c) :: nat) =
     (let n = of_char c in
      if (65 \<le> n \<and> n \<le> 90) \<or> (192 \<le> n \<and> n \<le> 214) \<or> (216 \<le> n \<and> n \<le> 222) then n + 32 else n)"
  by (auto simp: toLowerChar_def Let_def)

lemma isSpace_toLowerChar: "isSpace (toLowerChar c) \<longleftrightarrow> isSpace c"
  by (auto simp: isSpace_def of_char_toLowerChar Let_def)

lemma toLowerChar_fix: "isAlnum c \<or> isHyphen c \<Longrightarrow> toLowerChar c = c"
  by (auto simp: toLowerChar_def isAlnum_def isLowerAZ_def isDigit_def isHyphen_code Let_def)

section \<open>Replacing runs and stripping the ends\<close>

declare replaceRuns.simps [simp del]

lemma replaceRuns_Nil [simp]: "replaceRuns P r [] = []"
  by (simp add: replaceRuns.simps)

lemma replaceRuns_Cons:
  "replaceRuns P r (c # cs) =
     (if P c then (if cs \<noteq> [] \<and> P (hd cs) then replaceRuns P r cs else r @ replaceRuns P r cs)
      else c # replaceRuns P r cs)"
proof (cases cs)
  case Nil
  then show ?thesis by (simp add: replaceRuns.simps)
next
  case (Cons d ds)
  then show ?thesis by (simp add: replaceRuns.simps)
qed

lemma replaceRuns_eq_Nil [simp]: "r \<noteq> [] \<Longrightarrow> replaceRuns P r s = [] \<longleftrightarrow> s = []"
  by (induction s) (auto simp: replaceRuns_Cons)

lemma hd_replaceRuns:
  "s \<noteq> [] \<Longrightarrow> hd (replaceRuns P [h] s) = (if P (hd s) then h else hd s)"
  by (induction s) (auto simp: replaceRuns_Cons)

lemma set_replaceRuns: "set (replaceRuns P r s) \<subseteq> set r \<union> {c \<in> set s. \<not> P c}"
  by (induction s) (auto simp: replaceRuns_Cons)

lemma replaceRuns_id: "(\<forall>c\<in>set s. \<not> P c) \<Longrightarrow> replaceRuns P r s = s"
  by (induction s) (auto simp: replaceRuns_Cons)

lemma replaceRuns_cong: "(\<forall>c\<in>set s. P c = Q c) \<Longrightarrow> replaceRuns P r s = replaceRuns Q r s"
  by (induction s) (auto simp: replaceRuns_Cons)

lemma replaceRuns_absorb:
  assumes "\<And>c. P c \<Longrightarrow> Q c" and "Q h"
  shows "replaceRuns Q [h] (replaceRuns P [h] s) = replaceRuns Q [h] s"
proof (induction s)
  case Nil
  then show ?case by simp
next
  case (Cons c cs)
  have hdQ: "cs \<noteq> [] \<Longrightarrow> Q (hd (replaceRuns P [h] cs)) = Q (hd cs)"
    using assms by (auto simp: hd_replaceRuns)
  show ?case
    using Cons assms hdQ by (cases "cs = []") (auto simp: replaceRuns_Cons)
qed

lemma replaceRuns_map:
  assumes "\<And>c. Q (f c) = Q c" and "\<And>c. \<not> Q c \<Longrightarrow> f c = c"
  shows "replaceRuns Q r (map f s) = replaceRuns Q r s"
  using assms by (induction s) (auto simp: replaceRuns_Cons hd_map)

lemma replaceEach_single: "replaceEach P [h] s = map (\<lambda>c. if P c then h else c) s"
  by (induction s) (auto simp: replaceEach_def)

lemma replaceRuns_snoc:
  "replaceRuns P [h] (s @ [c]) =
     (if P c then (if s \<noteq> [] \<and> P (last s) then replaceRuns P [h] s else replaceRuns P [h] s @ [h])
      else replaceRuns P [h] s @ [c])"
proof (induction s)
  case Nil
  then show ?case by (simp add: replaceRuns_Cons)
next
  case (Cons d ds)
  then show ?case
    by (cases "ds = []") (auto simp: replaceRuns_Cons hd_append)
qed

lemma stripEnds_Nil [simp]: "stripEnds P [] = []"
  by (simp add: stripEnds_def)

lemma stripEnds_Cons: "P c \<Longrightarrow> stripEnds P (c # s) = stripEnds P s"
  by (simp add: stripEnds_def)

lemma stripEnds_snoc: "P c \<Longrightarrow> stripEnds P (s @ [c]) = stripEnds P s"
proof (cases "\<forall>x\<in>set s. P x")
  case True
  assume c: "P c"
  from True c have "dropWhile P (s @ [c]) = []" by simp
  moreover from True have "dropWhile P s = []" by simp
  ultimately show ?thesis by (simp only: stripEnds_def rev.simps dropWhile.simps)
next
  case False
  assume c: "P c"
  from False obtain x where "x \<in> set s" "\<not> P x" by blast
  then have "dropWhile P (s @ [c]) = dropWhile P s @ [c]" by (rule dropWhile_append1)
  with c show ?thesis by (simp add: stripEnds_def)
qed

lemma stripEnds_prefix: "(\<forall>c\<in>set a. P c) \<Longrightarrow> stripEnds P (a @ s) = stripEnds P s"
  by (induction a) (auto simp: stripEnds_Cons)

lemma stripEnds_suffix: "(\<forall>c\<in>set b. P c) \<Longrightarrow> stripEnds P (s @ b) = stripEnds P s"
proof (induction b rule: rev_induct)
  case Nil
  then show ?case by simp
next
  case (snoc c b)
  then have "stripEnds P ((s @ b) @ [c]) = stripEnds P (s @ b)"
    by (intro stripEnds_snoc) simp
  with snoc show ?case by simp
qed

lemma stripEnds_decomp:
  "\<exists>a b. s = a @ stripEnds P s @ b \<and> (\<forall>c\<in>set a. P c) \<and> (\<forall>c\<in>set b. P c)"
proof -
  let ?t = "dropWhile P s"
  have 1: "s = takeWhile P s @ ?t" by simp
  have "rev (dropWhile P (rev ?t)) @ rev (takeWhile P (rev ?t))
        = rev (takeWhile P (rev ?t) @ dropWhile P (rev ?t))"
    by (simp only: rev_append)
  also have "\<dots> = ?t"
    by (simp only: takeWhile_dropWhile_id rev_rev_ident)
  finally have 3: "?t = stripEnds P s @ rev (takeWhile P (rev ?t))"
    by (simp only: stripEnds_def)
  have a: "\<forall>c\<in>set (takeWhile P s). P c" by (auto dest: set_takeWhileD)
  have b: "\<forall>c\<in>set (rev (takeWhile P (rev ?t))). P c" by (auto dest: set_takeWhileD)
  from 1 3 have "s = takeWhile P s @ stripEnds P s @ rev (takeWhile P (rev ?t))" by simp
  with a b show ?thesis by blast
qed

lemma stripEnds_ends:
  assumes "stripEnds P s \<noteq> []"
  shows "\<not> P (hd (stripEnds P s))" and "\<not> P (last (stripEnds P s))"
proof -
  let ?t = "dropWhile P s"
  let ?u = "dropWhile P (rev ?t)"
  from assms have u: "?u \<noteq> []" by (simp add: stripEnds_def)
  then have t: "?t \<noteq> []" by (cases "?t") auto
  have "last (stripEnds P s) = hd ?u" using u by (simp add: stripEnds_def last_rev)
  moreover have "\<not> P (hd ?u)" using u by (rule hd_dropWhile)
  ultimately show "\<not> P (last (stripEnds P s))" by simp
  have nP: "\<not> P (hd ?t)" using t by (rule hd_dropWhile)
  have "rev ?t \<noteq> []" using t by simp
  have "hd (stripEnds P s) = last ?u" using u by (simp add: stripEnds_def hd_rev)
  also have "last ?u = last (takeWhile P (rev ?t) @ ?u)"
    using last_appendR [OF u, of "takeWhile P (rev ?t)"] by simp
  also have "\<dots> = last (rev ?t)"
    by (simp only: takeWhile_dropWhile_id)
  also have "\<dots> = hd ?t" using t by (simp add: last_rev)
  finally show "\<not> P (hd (stripEnds P s))" using nP by simp
qed

lemma dropWhile_hd_id: "xs \<noteq> [] \<Longrightarrow> \<not> P (hd xs) \<Longrightarrow> dropWhile P xs = xs"
  by (cases xs) auto

lemma stripEnds_id:
  "s = [] \<or> (\<not> P (hd s) \<and> \<not> P (last s)) \<Longrightarrow> stripEnds P s = s"
proof (cases s)
  case Nil
  then show ?thesis by simp
next
  case (Cons c cs)
  assume "s = [] \<or> (\<not> P (hd s) \<and> \<not> P (last s))"
  with Cons have h: "\<not> P c" and l: "\<not> P (last (c # cs))" by auto
  from h have 1: "dropWhile P (c # cs) = c # cs" by simp
  have ne: "rev (c # cs) \<noteq> []" by simp
  have "hd (rev (c # cs)) = last (c # cs)" by (simp only: hd_rev)
  with l have "\<not> P (hd (rev (c # cs)))" by simp
  with ne have "dropWhile P (rev (c # cs)) = rev (c # cs)"
    by (cases "rev (c # cs)") auto
  with 1 Cons show ?thesis by (simp only: stripEnds_def rev_rev_ident)
qed

lemma noDoubleHyphen_Cons:
  "noDoubleHyphen (a # s) \<longleftrightarrow> (s \<noteq> [] \<longrightarrow> \<not> (isHyphen a \<and> isHyphen (hd s))) \<and> noDoubleHyphen s"
  by (cases s) auto

lemma noDoubleHyphen_append:
  "noDoubleHyphen (xs @ ys) \<Longrightarrow> noDoubleHyphen xs \<and> noDoubleHyphen ys"
  by (induction xs) (auto simp: noDoubleHyphen_Cons hd_append split: if_splits)

lemma noDoubleHyphen_replaceRuns:
  assumes "\<And>c. isHyphen c \<Longrightarrow> P c"
  shows "noDoubleHyphen (replaceRuns P ''-'' s)"
proof (induction s)
  case Nil
  then show ?case by simp
next
  case (Cons c cs)
  then show ?case
    using assms by (auto simp: replaceRuns_Cons noDoubleHyphen_Cons hd_replaceRuns isHyphen_def)
qed

lemma replaceRuns_hyphen_id:
  "noDoubleHyphen s \<Longrightarrow> replaceRuns isHyphen ''-'' s = s"
  by (induction s) (auto simp: replaceRuns_Cons noDoubleHyphen_Cons isHyphen_def)

section \<open>Slug normalization: one canonical form\<close>

text \<open>
  Both the chain of calls in the handler and the steps of the specification come to the
  same thing: lower-case the label, turn every run of characters other than \<^verbatim>\<open>a-z\<close> and
  \<^verbatim>\<open>0-9\<close> into one hyphen, and drop a hyphen at either end. The \<^verbatim>\<open>trim\<close> adds nothing.
\<close>

lemma sep_hyphen: "isHyphen c \<Longrightarrow> isSeparator c"
  by (simp add: isSeparator_def hyphen_not_alnum)

lemma sep_space: "isSpace c \<Longrightarrow> isSeparator c"
  by (simp add: isSeparator_def space_not_alnum)

lemma sep_nonclass: "\<not> slugClass c \<Longrightarrow> isSeparator c"
  by (simp add: isSeparator_def slugClass_alt)

lemma sep_dash [simp]: "isSeparator (CHR ''-'')"
  by (simp add: sep_hyphen isHyphen_def)

lemma sep_on_slug_chars: "isAlnum c \<or> isHyphen c \<Longrightarrow> isHyphen c = isSeparator c"
  by (auto simp: isSeparator_def hyphen_not_alnum)

lemma collapse_after_space_runs:
  assumes "\<forall>c\<in>set u. slugClass c"
  shows "replaceRuns isHyphen ''-'' (replaceRuns isSpace ''-'' u) = replaceRuns isSeparator ''-'' u"
proof -
  let ?v = "replaceRuns isSpace ''-'' u"
  have "\<forall>c\<in>set ?v. isAlnum c \<or> isHyphen c"
  proof
    fix c assume "c \<in> set ?v"
    with set_replaceRuns [of isSpace "''-''" u]
    have "c = CHR ''-'' \<or> (c \<in> set u \<and> \<not> isSpace c)" by auto
    with assms show "isAlnum c \<or> isHyphen c"
      by (auto simp: slugClass_alt isHyphen_def)
  qed
  then have "replaceRuns isHyphen ''-'' ?v = replaceRuns isSeparator ''-'' ?v"
    by (intro replaceRuns_cong) (auto simp: sep_on_slug_chars)
  also have "\<dots> = replaceRuns isSeparator ''-'' u"
    by (rule replaceRuns_absorb) (simp_all add: sep_space)
  finally show ?thesis .
qed

lemma normalizeSlug_canonical:
  "normalizeSlug s = stripEnds isHyphen (replaceRuns isSeparator ''-'' (toLowerCase (trim s)))"
proof -
  let ?t = "toLowerCase (trim s)"
  let ?e = "\<lambda>c. if \<not> slugClass c then CHR ''-'' else c"
  have cls: "\<forall>c\<in>set (map ?e ?t). slugClass c"
    by (auto simp: slugClass_def isHyphen_def)
  have "replaceRuns isHyphen ''-'' (replaceRuns isSpace ''-'' (map ?e ?t))
        = replaceRuns isSeparator ''-'' (map ?e ?t)"
    using cls by (rule collapse_after_space_runs)
  also have "\<dots> = replaceRuns isSeparator ''-'' ?t"
  proof (rule replaceRuns_map)
    fix c show "isSeparator (?e c) = isSeparator c"
      by (cases "slugClass c") (simp_all add: sep_nonclass)
  next
    fix c assume "\<not> isSeparator c"
    then have "slugClass c" using sep_nonclass by blast
    then show "?e c = c" by simp
  qed
  finally show ?thesis
    by (simp add: normalizeSlug_def replaceEach_single)
qed

lemma normalizeBySpec_canonical:
  "normalizeBySpec s = stripEnds isHyphen (replaceRuns isSeparator ''-'' (toLowerCase s))"
proof -
  let ?t = "toLowerCase s"
  let ?u = "replaceRuns (\<lambda>c. \<not> slugClass c) ''-'' ?t"
  have cls: "\<forall>c\<in>set ?u. slugClass c"
  proof
    fix c assume "c \<in> set ?u"
    with set_replaceRuns [of "\<lambda>c. \<not> slugClass c" "''-''" ?t]
    have "c = CHR ''-'' \<or> slugClass c" by auto
    then show "slugClass c" by (auto simp: slugClass_def isHyphen_def)
  qed
  have "replaceRuns isHyphen ''-'' (replaceRuns isSpace ''-'' ?u) = replaceRuns isSeparator ''-'' ?u"
    using cls by (rule collapse_after_space_runs)
  also have "\<dots> = replaceRuns isSeparator ''-'' ?t"
    by (rule replaceRuns_absorb) (simp_all add: sep_nonclass)
  finally show ?thesis
    by (simp add: normalizeBySpec_def)
qed

lemma strip_runs_prefix:
  assumes "\<forall>c\<in>set a. Q c"
  shows "stripEnds isHyphen (replaceRuns Q ''-'' (a @ m)) = stripEnds isHyphen (replaceRuns Q ''-'' m)"
  using assms
  by (induction a) (auto simp: replaceRuns_Cons stripEnds_Cons isHyphen_def)

lemma strip_runs_suffix:
  assumes "\<forall>c\<in>set b. Q c"
  shows "stripEnds isHyphen (replaceRuns Q ''-'' (m @ b)) = stripEnds isHyphen (replaceRuns Q ''-'' m)"
  using assms
proof (induction b rule: rev_induct)
  case Nil
  then show ?case by simp
next
  case (snoc c b)
  then have c: "Q c" and b: "\<forall>c\<in>set b. Q c" by auto
  have "replaceRuns Q ''-'' ((m @ b) @ [c]) = replaceRuns Q ''-'' (m @ b)
        \<or> replaceRuns Q ''-'' ((m @ b) @ [c]) = replaceRuns Q ''-'' (m @ b) @ ''-''"
    using c replaceRuns_snoc [of Q "CHR ''-''" "m @ b" c] by (simp split: if_splits)
  then have "stripEnds isHyphen (replaceRuns Q ''-'' ((m @ b) @ [c]))
        = stripEnds isHyphen (replaceRuns Q ''-'' (m @ b))"
    by (auto simp: stripEnds_snoc isHyphen_def)
  with snoc.IH [OF b] show ?case by simp
qed

lemma trim_is_stripEnds: "trim s = stripEnds isSpace s"
  by (simp add: trim_def stripEnds_def)

lemma trim_immaterial:
  "stripEnds isHyphen (replaceRuns isSeparator ''-'' (toLowerCase (trim s)))
   = stripEnds isHyphen (replaceRuns isSeparator ''-'' (toLowerCase s))"
proof -
  obtain a b where s: "s = a @ trim s @ b" and a: "\<forall>c\<in>set a. isSpace c" and b: "\<forall>c\<in>set b. isSpace c"
    using stripEnds_decomp [of s isSpace] by (auto simp: trim_is_stripEnds)
  have la: "\<forall>c\<in>set (toLowerCase a). isSeparator c"
    using a by (auto simp: toLowerCase_def isSpace_toLowerChar sep_space)
  have lb: "\<forall>c\<in>set (toLowerCase b). isSeparator c"
    using b by (auto simp: toLowerCase_def isSpace_toLowerChar sep_space)
  have "toLowerCase s = toLowerCase a @ toLowerCase (trim s) @ toLowerCase b"
    using arg_cong [OF s, of toLowerCase] by (simp add: toLowerCase_def)
  then show ?thesis
    using strip_runs_prefix [OF la, of "toLowerCase (trim s) @ toLowerCase b"]
      strip_runs_suffix [OF lb, of "toLowerCase (trim s)"]
    by simp
qed

lemma normalizeSlug_refines_spec: "normalizeSlug s = normalizeBySpec s"
  by (simp add: normalizeSlug_canonical normalizeBySpec_canonical trim_immaterial)

lemma normalizeSlug_urlSafe: "normalizeSlug s = [] \<or> urlSafeSlug (normalizeSlug s)"
proof (cases "normalizeSlug s = []")
  case True
  then show ?thesis by simp
next
  case False
  let ?x = "replaceRuns isSeparator ''-'' (toLowerCase (trim s))"
  let ?y = "normalizeSlug s"
  have y: "?y = stripEnds isHyphen ?x" by (rule normalizeSlug_canonical)
  obtain a b where x: "?x = a @ ?y @ b"
    using stripEnds_decomp [of ?x isHyphen] y by auto
  have chars_x: "\<forall>c\<in>set ?x. isLowerAZ c \<or> isDigit c \<or> isHyphen c"
  proof
    fix c assume "c \<in> set ?x"
    with set_replaceRuns [of isSeparator "''-''" "toLowerCase (trim s)"]
    have "c = CHR ''-'' \<or> \<not> isSeparator c" by auto
    then show "isLowerAZ c \<or> isDigit c \<or> isHyphen c"
      by (auto simp: isSeparator_def isAlnum_def isHyphen_def)
  qed
  have "set ?x = set (a @ ?y @ b)" using x by simp
  then have "set ?y \<subseteq> set ?x" by auto
  with chars_x have chars: "list_all (\<lambda>c. isLowerAZ c \<or> isDigit c \<or> isHyphen c) ?y"
    by (auto simp: list_all_iff)
  have "noDoubleHyphen ?x" by (rule noDoubleHyphen_replaceRuns) (rule sep_hyphen)
  then have "noDoubleHyphen (a @ ?y @ b)" using x by simp
  then have nd: "noDoubleHyphen ?y"
    by (blast dest: noDoubleHyphen_append)
  from False y have ne: "stripEnds isHyphen ?x \<noteq> []" by simp
  from stripEnds_ends [OF ne] y have "\<not> isHyphen (hd ?y)" "\<not> isHyphen (last ?y)" by simp_all
  with False chars nd show ?thesis by (simp add: urlSafeSlug_def)
qed

lemma normalizeSlug_fixes_slugs:
  assumes "urlSafeSlug y"
  shows "normalizeSlug y = y"
proof -
  from assms have chars: "\<forall>c\<in>set y. isAlnum c \<or> isHyphen c"
    by (auto simp: urlSafeSlug_def list_all_iff isAlnum_def)
  from assms have ends: "\<not> isHyphen (hd y)" "\<not> isHyphen (last y)" and nd: "noDoubleHyphen y"
    by (simp_all add: urlSafeSlug_def)
  have low: "toLowerCase y = y"
    unfolding toLowerCase_def using chars by (intro map_idI) (simp add: toLowerChar_fix)
  have "replaceRuns isSeparator ''-'' y = replaceRuns isHyphen ''-'' y"
    using chars by (intro replaceRuns_cong) (auto simp: sep_on_slug_chars)
  also have "\<dots> = y" using nd by (rule replaceRuns_hyphen_id)
  finally have runs: "replaceRuns isSeparator ''-'' y = y" .
  have "stripEnds isHyphen y = y" using ends by (intro stripEnds_id) simp
  with low runs show ?thesis
    by (simp add: normalizeSlug_refines_spec normalizeBySpec_canonical)
qed

lemma normalizeSlug_idempotent: "normalizeSlug (normalizeSlug s) = normalizeSlug s"
proof (cases "normalizeSlug s = []")
  case True
  have "normalizeSlug [] = []" by code_simp
  with True show ?thesis by simp
next
  case False
  with normalizeSlug_urlSafe [of s] show ?thesis by (simp add: normalizeSlug_fixes_slugs)
qed

section \<open>Registration\<close>

lemma kv_emit [simp]: "kv (emit e w) = kv w"
  by (simp add: emit_def)

lemma trace_emit [simp]: "trace (emit e w) = trace w @ [e]"
  by (simp add: emit_def)

lemma kv_kvSet [simp]: "kv (kvSet k r w) = (kv w)(k \<mapsto> r)"
  by (simp add: kvSet_def)

lemma kv_kvDelete [simp]: "kv (kvDelete k w) = (kv w)(k := None)"
  by (simp add: kvDelete_def)

lemma kv_detectFilename [simp]: "kv (fst (detectFilename net w target slug)) = kv w"
  by (simp add: detectFilename_def Let_def split: fetchResult.splits)

lemma detectFilename_rejected:
  "net \<lparr>fmethod = ''HEAD'', furl = target, fheaders = []\<rparr> = Rejected msg
   \<Longrightarrow> snd (detectFilename net w target slug) = slug @ ''.mp4''"
  by (simp add: detectFilename_def Let_def)

lemma detectFilename_resolved:
  "net \<lparr>fmethod = ''HEAD'', furl = target, fheaders = []\<rparr> = Resolved resp
   \<Longrightarrow> snd (detectFilename net w target slug)
       = slug @ mapContentTypeToExtension (hget ''Content-Type'' (uheaders resp))"
  by (simp add: detectFilename_def Let_def)

lemma prepareLink_kv [simp]: "kv (fst (prepareLink net w req)) = kv w"
  by (simp add: prepareLink_def Let_def split_beta split: option.splits)

lemma prepareLink_Inr:
  assumes "prepareLink net w req = (w1, Inr (slug, rcd))"
  shows "\<exists>fd label. form req = Some fd \<and> formGet ''custom_id'' fd = Some label
           \<and> slug = normalizeSlug label \<and> slug \<noteq> [] \<and> kv w slug = None \<and> kv w1 = kv w"
proof -
  from assms have "kv w1 = kv w"
    using prepareLink_kv [of net w req] by simp
  with assms show ?thesis
    by (auto simp: prepareLink_def Let_def split_beta split: option.splits if_splits)
qed

lemma generateLinkHandler_kv:
  assumes "generateLinkHandler net w req = (w', out)"
  shows "kv w' = kv w
         \<or> (\<exists>fd label rcd. form req = Some fd \<and> formGet ''custom_id'' fd = Some label
               \<and> normalizeSlug label \<noteq> [] \<and> kv w (normalizeSlug label) = None
               \<and> kv w' = (kv w)(normalizeSlug label \<mapsto> rcd))"
proof (cases "prepareLink net w req")
  case (Pair w1 res)
  show ?thesis
  proof (cases res)
    case (Inl early)
    with Pair assms have "w' = w1" by (simp add: generateLinkHandler_def)
    moreover from Pair have "kv w1 = kv w" using prepareLink_kv [of net w req] by simp
    ultimately show ?thesis by simp
  next
    case (Inr p)
    obtain slug rcd where p: "p = (slug, rcd)" by (cases p)
    from Pair Inr p have prep: "prepareLink net w req = (w1, Inr (slug, rcd))" by simp
    from prepareLink_Inr [OF prep] obtain fd label where
      f: "form req = Some fd" "formGet ''custom_id'' fd = Some label"
         "slug = normalizeSlug label" "slug \<noteq> []" "kv w slug = None" "kv w1 = kv w"
      by blast
    from assms prep have "w' = kvSet slug rcd w1"
      by (simp add: generateLinkHandler_def storeLink_def Let_def)
    with f show ?thesis by auto
  qed
qed

text \<open>
  C5. Whatever the store, the network and the request: a key of the store that
  \<^verbatim>\<open>generateLinkHandler\<close> changes is a non-empty string of lowercase ASCII letters, digits
  and hyphens, with no hyphen at the start, at the end, or next to another hyphen.
\<close>

theorem C5_persisted_slugs_url_safe:
  assumes "generateLinkHandler net w req = (w', out)" and "kv w' s \<noteq> kv w s"
  shows "urlSafeSlug s"
proof -
  from generateLinkHandler_kv [OF assms(1)] assms(2)
  obtain label rcd where l: "normalizeSlug label \<noteq> []"
      and k: "kv w' = (kv w)(normalizeSlug label \<mapsto> rcd)"
    by auto
  from k assms(2) have "s = normalizeSlug label"
    by (auto split: if_splits)
  with l normalizeSlug_urlSafe [of label] show ?thesis by simp
qed

lemma generateLinkHandler_empty_slug:
  assumes "form req = Some fd" and "formGet ''custom_id'' fd = Some label"
    and "normalizeSlug label = []"
  shows "generateLinkHandler net w req = (w, serveHtmlResponse ''Error'' [] 400)"
  using assms by (simp add: generateLinkHandler_def prepareLink_def Let_def)

text \<open>
  C4. The slug the handler computes is the slug of the specification's algorithm
  (\<open>normalizeBySpec\<close>); it is a function of the label, and normalizing a slug again
  gives the same slug. \<^verbatim>\<open>"My Movie! 2023"\<close> gives \<^verbatim>\<open>"my-movie-2023"\<close>; the empty label and
  \<^verbatim>\<open>"!!!"\<close> give the empty string, and a registration whose label gives the empty string
  is answered 400 with the world unchanged.
\<close>

theorem C4_slug_normalization:
  "normalizeSlug label = normalizeBySpec label
   \<and> normalizeSlug (normalizeSlug label) = normalizeSlug label
   \<and> normalizeSlug ''My Movie! 2023'' = ''my-movie-2023''
   \<and> normalizeSlug [] = [] \<and> normalizeSlug ''!!!'' = []
   \<and> (form req = Some fd \<and> formGet ''custom_id'' fd = Some bad \<and> normalizeSlug bad = []
        \<longrightarrow> generateLinkHandler net w req = (w, serveHtmlResponse ''Error'' [] 400))
   \<and> statusOf (serveHtmlResponse ''Error'' [] 400) = Some 400"
proof -
  have e1: "normalizeSlug ''My Movie! 2023'' = ''my-movie-2023''" by code_simp
  have e2: "normalizeSlug [] = []" by code_simp
  have e3: "normalizeSlug ''!!!'' = []" by code_simp
  have st: "statusOf (serveHtmlResponse ''Error'' [] 400) = Some 400"
    by (simp add: statusOf_serveHtmlResponse nullBodyStatus_def)
  show ?thesis
    using e1 e2 e3 st
    by (simp add: normalizeSlug_refines_spec [symmetric] normalizeSlug_idempotent
        generateLinkHandler_empty_slug)
qed

theorem C4_slug_normalization_witness:
  "normalizeSlug ''  --A  b__c--  '' = ''a-b-c''
   \<and> normalizeBySpec ''  --A  b__c--  '' = ''a-b-c''
   \<and> normalizeSlug ''a-b-c'' = ''a-b-c''
   \<and> normalizeSlug ''!!!'' = []
   \<and> statusOf (snd (generateLinkHandler deadNetwork exampleWorld
        (examplePost ''/generate'' None
           [(''url'', ''https://ex.com/a.bin''), (''key'', ''s3cret''), (''custom_id'', ''!!!'')])))
      = Some 400"
proof -
  let ?fd = "[(''url'', ''https://ex.com/a.bin''), (''key'', ''s3cret''), (''custom_id'', ''!!!'')]"
  let ?req = "examplePost ''/generate'' None ?fd"
  note c = C4_slug_normalization [of "''  --A  b__c--  ''" ?req ?fd "''!!!''" deadNetwork exampleWorld]
  have v: "normalizeSlug ''  --A  b__c--  '' = ''a-b-c''" by code_simp
  have h: "form ?req = Some ?fd \<and> formGet ''custom_id'' ?fd = Some ''!!!'' \<and> normalizeSlug ''!!!'' = []"
    using c by (simp add: examplePost_def formGet_def)
  from c h have r: "generateLinkHandler deadNetwork exampleWorld ?req
      = (exampleWorld, serveHtmlResponse ''Error'' [] 400)"
    by blast
  from c have s: "statusOf (serveHtmlResponse ''Error'' [] 400) = Some 400" by blast
  from c v have "normalizeBySpec ''  --A  b__c--  '' = ''a-b-c''"
    and "normalizeSlug ''a-b-c'' = ''a-b-c''" by auto
  with v h r s show ?thesis by simp
qed

theorem C5_persisted_slugs_url_safe_witness:
  "kv (fst (generateLinkHandler deadNetwork emptyWorld
        (examplePost ''/generate'' None
           [(''url'', ''https://ex.com/a.bin''), (''key'', ''s3cret''),
            (''custom_id'', ''Clip  One!''), (''filename'', ''clip.mp4'')]))) ''clip-one''
     \<noteq> kv emptyWorld ''clip-one''
   \<and> urlSafeSlug ''clip-one''"
proof -
  let ?req = "examplePost ''/generate'' None
           [(''url'', ''https://ex.com/a.bin''), (''key'', ''s3cret''),
            (''custom_id'', ''Clip  One!''), (''filename'', ''clip.mp4'')]"
  have n: "normalizeSlug ''Clip  One!'' = ''clip-one''" by code_simp
  have t: "trim ''clip.mp4'' = ''clip.mp4''" by code_simp
  have ch: "kv (fst (generateLinkHandler deadNetwork emptyWorld ?req)) ''clip-one''
     \<noteq> kv emptyWorld ''clip-one''"
    by (simp add: generateLinkHandler_def prepareLink_def storeLink_def Let_def examplePost_def
        formGet_def truthy_def n t emptyWorld_def showNullable_def)
  from C5_persisted_slugs_url_safe [OF surjective_pairing ch] ch show ?thesis by simp
qed

lemma statusOf_409: "statusOf (serveHtmlResponse ''Link Name Taken'' vs 409) = Some 409"
  by (simp add: statusOf_serveHtmlResponse nullBodyStatus_def)

text \<open>
  C1 (as amended). One registration request, handled alone, whose label normalizes to a
  slug that the store already maps to a record: the store is returned unchanged. The
  answer is 409 when \<^verbatim>\<open>url\<close> and \<^verbatim>\<open>key\<close> are present and non-empty (and the slug is not
  the empty string); otherwise the validation, which comes first, answers 400.
\<close>

theorem C1_taken_slug_not_overwritten:
  assumes "form req = Some fd" and "formGet ''custom_id'' fd = Some label"
    and "kv w (normalizeSlug label) = Some r"
  shows "kv (fst (generateLinkHandler net w req)) = kv w
    \<and> (truthy (formGet ''url'' fd) \<and> truthy (formGet ''key'' fd) \<and> normalizeSlug label \<noteq> []
         \<longrightarrow> generateLinkHandler net w req
              = (emit (KvGet (normalizeSlug label)) w,
                 serveHtmlResponse ''Link Name Taken'' [normalizeSlug label] 409))
    \<and> (\<not> (truthy (formGet ''url'' fd) \<and> truthy (formGet ''key'' fd) \<and> normalizeSlug label \<noteq> [])
         \<longrightarrow> generateLinkHandler net w req = (w, serveHtmlResponse ''Error'' [] 400))
    \<and> statusOf (serveHtmlResponse ''Link Name Taken'' [normalizeSlug label] 409) = Some 409
    \<and> statusOf (serveHtmlResponse ''Error'' [] 400) = Some 400"
  using assms
  by (auto simp: generateLinkHandler_def prepareLink_def Let_def statusOf_409
      statusOf_serveHtmlResponse nullBodyStatus_def)

text \<open>
  The claim as stated promises 409 for every such request. Here the slug
  \<^verbatim>\<open>clip-one\<close> is taken and the request has an empty \<^verbatim>\<open>url\<close>: the answer is 400.
\<close>

theorem C1_claim_counterexample:
  "kv exampleWorld (normalizeSlug ''Clip One'') = Some exampleRecord
   \<and> statusOf (snd (generateLinkHandler deadNetwork exampleWorld
        (examplePost ''/generate'' None
           [(''url'', ''''), (''key'', ''s3cret''), (''custom_id'', ''Clip One'')]))) = Some 400
   \<and> statusOf (snd (generateLinkHandler deadNetwork exampleWorld
        (examplePost ''/generate'' None
           [(''url'', ''''), (''key'', ''s3cret''), (''custom_id'', ''Clip One'')]))) \<noteq> Some 409"
proof -
  have n: "normalizeSlug ''Clip One'' = ''clip-one''" by code_simp
  show ?thesis
    by (simp add: n exampleWorld_def generateLinkHandler_def prepareLink_def Let_def
        examplePost_def formGet_def truthy_def statusOf_serveHtmlResponse nullBodyStatus_def)
qed

theorem C1_taken_slug_not_overwritten_witness:
  "generateLinkHandler deadNetwork exampleWorld
        (examplePost ''/generate'' None
           [(''url'', ''https://ex.com/other.bin''), (''key'', ''k2''), (''custom_id'', ''Clip One'')])
     = (emit (KvGet ''clip-one'') exampleWorld,
        serveHtmlResponse ''Link Name Taken'' [''clip-one''] 409)
   \<and> generateLinkHandler deadNetwork exampleWorld
        (examplePost ''/generate'' None
           [(''url'', ''''), (''key'', ''k2''), (''custom_id'', ''Clip One'')])
     = (exampleWorld, serveHtmlResponse ''Error'' [] 400)
   \<and> kv (fst (generateLinkHandler deadNetwork exampleWorld
        (examplePost ''/generate'' None
           [(''url'', ''https://ex.com/other.bin''), (''key'', ''k2''), (''custom_id'', ''Clip One'')])))
        ''clip-one'' = Some exampleRecord"
proof -
  let ?fd1 = "[(''url'', ''https://ex.com/other.bin''), (''key'', ''k2''), (''custom_id'', ''Clip One'')]"
  let ?fd2 = "[(''url'', ''''), (''key'', ''k2''), (''custom_id'', ''Clip One'')]"
  have n: "normalizeSlug ''Clip One'' = ''clip-one''" by code_simp
  have k: "kv exampleWorld (normalizeSlug ''Clip One'') = Some exampleRecord"
    by (simp add: n exampleWorld_def)
  have f1: "form (examplePost ''/generate'' None ?fd1) = Some ?fd1"
    and f2: "form (examplePost ''/generate'' None ?fd2) = Some ?fd2"
    by (simp_all add: examplePost_def)
  have c1: "formGet ''custom_id'' ?fd1 = Some ''Clip One''"
    and c2: "formGet ''custom_id'' ?fd2 = Some ''Clip One''"
    by (simp_all add: formGet_def)
  have t1: "truthy (formGet ''url'' ?fd1) \<and> truthy (formGet ''key'' ?fd1) \<and> normalizeSlug ''Clip One'' \<noteq> []"
    by (simp add: formGet_def truthy_def n)
  have t2: "\<not> (truthy (formGet ''url'' ?fd2) \<and> truthy (formGet ''key'' ?fd2) \<and> normalizeSlug ''Clip One'' \<noteq> [])"
    by (simp add: formGet_def truthy_def)
  from C1_taken_slug_not_overwritten [OF f1 c1 k, of deadNetwork] t1
  have a: "generateLinkHandler deadNetwork exampleWorld (examplePost ''/generate'' None ?fd1)
     = (emit (KvGet ''clip-one'') exampleWorld, serveHtmlResponse ''Link Name Taken'' [''clip-one''] 409)"
    and s: "kv (fst (generateLinkHandler deadNetwork exampleWorld (examplePost ''/generate'' None ?fd1)))
        = kv exampleWorld"
    by (simp_all add: n)
  from C1_taken_slug_not_overwritten [OF f2 c2 k, of deadNetwork] t2
  have b: "generateLinkHandler deadNetwork exampleWorld (examplePost ''/generate'' None ?fd2)
     = (exampleWorld, serveHtmlResponse ''Error'' [] 400)"
    by blast
  from k n have "kv exampleWorld ''clip-one'' = Some exampleRecord" by simp
  with a b s show ?thesis by simp
qed

section \<open>Headers: get after set and delete\<close>

lemma asciiLower_idem [simp]: "asciiLower (asciiLower n) = asciiLower n"
  by (induction n) (auto simp: asciiLower_def isUpperAZ_def)

lemma sameName_refl [simp]: "sameName n n"
  by (simp add: sameName_def)

lemma sameName_lower [simp]: "sameName (asciiLower n) m = sameName n m"
  by (simp add: sameName_def)

lemma sameName_sym: "sameName a b = sameName b a"
  by (auto simp: sameName_def)

lemma sameName_trans: "sameName a b \<Longrightarrow> sameName b c \<Longrightarrow> sameName a c"
  by (simp add: sameName_def)

lemma hget_hdelete_same [simp]: "hget n (hdelete n hs) = None"
proof -
  have "filter (\<lambda>h. sameName (fst h) n) (filter (\<lambda>h. \<not> sameName (fst h) n) hs) = []"
    by (induction hs) auto
  then show ?thesis by (simp add: hget_def hdelete_def)
qed

lemma hget_hdelete_other: "\<not> sameName m n \<Longrightarrow> hget m (hdelete n hs) = hget m hs"
proof -
  assume d: "\<not> sameName m n"
  have "filter (\<lambda>h. sameName (fst h) m) (filter (\<lambda>h. \<not> sameName (fst h) n) hs)
        = filter (\<lambda>h. sameName (fst h) m) hs"
  proof (induction hs)
    case Nil
    then show ?case by simp
  next
    case (Cons h hs)
    then show ?case using d by (auto dest: sameName_trans simp: sameName_sym [of _ m])
  qed
  then show ?thesis by (simp add: hget_def hdelete_def)
qed

lemma hget_hset_same [simp]: "hget n (hset n v hs) = Some v"
proof -
  have "filter (\<lambda>h. sameName (fst h) n) (filter (\<lambda>h. \<not> sameName (fst h) n) hs) = []"
    by (induction hs) auto
  then show ?thesis by (simp add: hget_def hset_def hdelete_def)
qed

lemma hget_hset_other: "\<not> sameName m n \<Longrightarrow> hget m (hset n v hs) = hget m hs"
proof -
  assume d: "\<not> sameName m n"
  then have "\<not> sameName n m" by (simp add: sameName_sym)
  with d hget_hdelete_other [OF d, of hs] show ?thesis
    by (simp add: hget_def hset_def)
qed

section \<open>Percent-encoding reads back as UTF-8\<close>









section \<open>The stream relay\<close>

lemma names_distinct:
  "\<not> sameName ''Content-Type'' ''Content-Disposition''"
  "\<not> sameName ''Content-Length'' ''Content-Disposition''"
  "\<not> sameName ''Content-Length'' ''Content-Type''"
  "\<not> sameName ''Content-Disposition'' ''Content-Type''"
  "\<not> sameName ''Content-Disposition'' ''Accept-Ranges''"
  "\<not> sameName ''Accept-Ranges'' ''Content-Disposition''"
  by code_simp+

text \<open>
  C9 (as amended). For a slug in the store and the matching key, the stream handler makes
  exactly one fetch: a GET of the stored URL that carries the caller's \<^verbatim>\<open>Range\<close> value,
  unchanged, when that value is present and not empty, and no header otherwise. When
  the upstream answers with a success status, the response has the upstream status and
  body, \<^verbatim>\<open>Accept-Ranges: bytes\<close>, no \<^verbatim>\<open>Content-Disposition\<close>, and every other upstream
  header as it came.
\<close>

theorem C9_stream_relay:
  assumes "kv w slugId = Some rcd" and "key rcd = k"
    and "rq = \<lparr>fmethod = ''GET'', furl = url rcd,
               fheaders = (case hget ''Range'' (reqHeaders req) of
                             None \<Rightarrow> []
                           | Some rv \<Rightarrow> if rv = [] then [] else [(''range'', rv)])\<rparr>"
  shows "(\<exists>line. trace (fst (streamVideoHandler net w req slugId k))
                  = trace w @ [KvGet slugId, ConsoleLog line, Fetch rq])
    \<and> (net rq = Resolved up \<and> ok up \<and> (nullBodyStatus (ustatus up) \<longrightarrow> ubody up = None) \<longrightarrow>
         (\<exists>resp. snd (streamVideoHandler net w req slugId k) = Inr resp
            \<and> status resp = ustatus up
            \<and> body resp = relayBody (ubody up)
            \<and> hget ''Accept-Ranges'' (headers resp) = Some ''bytes''
            \<and> hget ''Content-Disposition'' (headers resp) = None
            \<and> (\<forall>n. \<not> sameName n ''Accept-Ranges'' \<and> \<not> sameName n ''Content-Disposition''
                  \<longrightarrow> hget n (headers resp) = hget n (uheaders up))))"
proof -
  let ?range = "hget ''Range'' (reqHeaders req)"
  let ?H = "streamVideoHandler net w req slugId k"
  have lower: "asciiLower ''Range'' = ''range''" by code_simp
  have fwd: "fheaders rq = (if truthy ?range then hset ''Range'' (showNullable ?range) [] else [])"
    using assms(3)
    by (simp add: truthy_def showNullable_def hset_def hdelete_def lower split: option.splits)
  have rq: "rq = \<lparr>fmethod = ''GET'', furl = url rcd,
                  fheaders = (if truthy ?range then hset ''Range'' (showNullable ?range) [] else [])\<rparr>"
    using assms(3) fwd by simp
  have unfolded: "?H =
      (let w3 = emit (Fetch rq) (emit (ConsoleLog (''Streaming (Range: ''
                          @ (if truthy ?range then showNullable ?range else ''none'')
                          @ ''): '' @ url rcd)) (emit (KvGet slugId) w))
       in (case net rq of
             Rejected msg \<Rightarrow> (w3, Inl (FetchFailed msg))
           | Resolved upstreamResponse \<Rightarrow>
               if \<not> ok upstreamResponse
               then (w3, textResponse ''Failed to fetch upstream resource''
                           (ustatus upstreamResponse))
               else (w3, newResponse (relayBody (ubody upstreamResponse))
                           (ustatus upstreamResponse)
                           (hdelete ''Content-Disposition''
                              (hset ''Accept-Ranges'' ''bytes'' (uheaders upstreamResponse))))))"
    unfolding rq using assms(1,2)
    by (cases "truthy ?range")
       (simp_all add: streamVideoHandler_def Let_def split: fetchResult.splits)
  have tr: "\<exists>line. trace (fst ?H) = trace w @ [KvGet slugId, ConsoleLog line, Fetch rq]"
    unfolding unfolded by (simp add: Let_def split: fetchResult.splits)
  have rel: "\<exists>resp. snd ?H = Inr resp
            \<and> status resp = ustatus up
            \<and> body resp = relayBody (ubody up)
            \<and> hget ''Accept-Ranges'' (headers resp) = Some ''bytes''
            \<and> hget ''Content-Disposition'' (headers resp) = None
            \<and> (\<forall>n. \<not> sameName n ''Accept-Ranges'' \<and> \<not> sameName n ''Content-Disposition''
                  \<longrightarrow> hget n (headers resp) = hget n (uheaders up))"
    if up: "net rq = Resolved up" "ok up" "nullBodyStatus (ustatus up) \<longrightarrow> ubody up = None"
  proof -
    from up(2) have st: "\<not> (ustatus up < 200 \<or> 599 < ustatus up)" by (simp add: ok_def)
    from up(3) have nb: "\<not> (relayBody (ubody up) \<noteq> Empty \<and> nullBodyStatus (ustatus up))"
      by (auto simp: relayBody_def)
    show ?thesis
      unfolding unfolded using up(1,2) st nb
      by (simp add: Let_def newResponse_def hget_hdelete_other hget_hset_other names_distinct)
  qed
  from tr rel show ?thesis by blast
qed

text \<open>
  The claim as stated forwards the header whenever it is present. A request with the
  header \<^verbatim>\<open>Range:\<close> and an empty value has the header, and the fetch carries none.
\<close>

theorem C9_claim_counterexample:
  "hget ''Range'' (reqHeaders (exampleGet ''/stream/clip-one'' (Some ''s3cret'') [(''range'', '''')]))
     = Some ''''
   \<and> trace (fst (streamVideoHandler rangeNetwork exampleWorld
                   (exampleGet ''/stream/clip-one'' (Some ''s3cret'') [(''range'', '''')])
                   ''clip-one'' ''s3cret''))
     = [KvGet ''clip-one'',
        ConsoleLog ''Streaming (Range: none): https://ex.com/a.bin'',
        Fetch \<lparr>fmethod = ''GET'', furl = ''https://ex.com/a.bin'', fheaders = []\<rparr>]"
proof -
  have s: "sameName ''range'' ''Range''" by code_simp
  have g: "hget ''Range'' [(''range'', '''')] = Some ''''"
    by (simp add: hget_def s)
  show ?thesis
    by (simp add: exampleGet_def g streamVideoHandler_def exampleWorld_def exampleRecord_def
        Let_def truthy_def emit_def rangeNetwork_def split: fetchResult.splits)
qed

theorem C9_stream_relay_witness:
  "trace (fst (streamVideoHandler rangeNetwork exampleWorld
                   (exampleGet ''/stream/clip-one'' (Some ''s3cret'') [(''range'', ''bytes=0-99'')])
                   ''clip-one'' ''s3cret''))
     = [KvGet ''clip-one'',
        ConsoleLog ''Streaming (Range: bytes=0-99): https://ex.com/a.bin'',
        Fetch \<lparr>fmethod = ''GET'', furl = ''https://ex.com/a.bin'',
               fheaders = [(''range'', ''bytes=0-99'')]\<rparr>]
   \<and> (\<exists>resp. snd (streamVideoHandler rangeNetwork exampleWorld
                   (exampleGet ''/stream/clip-one'' (Some ''s3cret'') [(''range'', ''bytes=0-99'')])
                   ''clip-one'' ''s3cret'') = Inr resp
         \<and> status resp = 206 \<and> body resp = Stream (replicate 100 0)
         \<and> hget ''Accept-Ranges'' (headers resp) = Some ''bytes''
         \<and> hget ''Content-Disposition'' (headers resp) = None
         \<and> hget ''Content-Range'' (headers resp) = Some ''bytes 0-99/1000'')"
proof -
  let ?req = "exampleGet ''/stream/clip-one'' (Some ''s3cret'') [(''range'', ''bytes=0-99'')]"
  let ?rq = "\<lparr>fmethod = ''GET'', furl = ''https://ex.com/a.bin'',
               fheaders = [(''range'', ''bytes=0-99'')]\<rparr>"
  let ?up = "\<lparr>ustatus = 206,
                     uheaders = [(''content-type'', ''video/mp4''), (''content-range'', ''bytes 0-99/1000''),
                                 (''content-length'', ''100''),
                                 (''content-disposition'', ''attachment; filename=a.bin'')],
                     ubody = Some (replicate 100 0)\<rparr>"
  have s: "sameName ''range'' ''Range''" by code_simp
  have lower: "asciiLower ''Range'' = ''range''" by code_simp
  have g: "hget ''Range'' (reqHeaders ?req) = Some ''bytes=0-99''"
    by (simp add: exampleGet_def hget_def s)
  have k: "kv exampleWorld ''clip-one'' = Some exampleRecord" "key exampleRecord = ''s3cret''"
    by (simp_all add: exampleWorld_def exampleRecord_def)
  have r: "?rq = \<lparr>fmethod = ''GET'', furl = url exampleRecord,
               fheaders = (case hget ''Range'' (reqHeaders ?req) of
                             None \<Rightarrow> []
                           | Some rv \<Rightarrow> if rv = [] then [] else [(''range'', rv)])\<rparr>"
    by (simp add: g exampleRecord_def)
  have n: "rangeNetwork ?rq = Resolved ?up"
    by (simp add: rangeNetwork_def hget_def s)
  have o: "ok ?up" "nullBodyStatus (ustatus ?up) \<longrightarrow> ubody ?up = None"
    by (simp_all add: ok_def nullBodyStatus_def)
  have d: "\<not> sameName ''Content-Range'' ''Accept-Ranges''"
    "\<not> sameName ''Content-Range'' ''Content-Disposition''" by code_simp+
  have cr: "hget ''Content-Range'' (uheaders ?up) = Some ''bytes 0-99/1000''" by code_simp
  from C9_stream_relay [OF k r, of rangeNetwork ?up] n o
  obtain line resp where
    t: "trace (fst (streamVideoHandler rangeNetwork exampleWorld ?req ''clip-one'' ''s3cret''))
        = trace exampleWorld @ [KvGet ''clip-one'', ConsoleLog line, Fetch ?rq]"
    and p: "snd (streamVideoHandler rangeNetwork exampleWorld ?req ''clip-one'' ''s3cret'') = Inr resp"
      "status resp = 206" "body resp = Stream (replicate 100 0)"
      "hget ''Accept-Ranges'' (headers resp) = Some ''bytes''"
      "hget ''Content-Disposition'' (headers resp) = None"
    and a: "\<forall>n. \<not> sameName n ''Accept-Ranges'' \<and> \<not> sameName n ''Content-Disposition''
                  \<longrightarrow> hget n (headers resp) = hget n (uheaders ?up)"
    by (auto simp: relayBody_def)
  from a d cr have c: "hget ''Content-Range'' (headers resp) = Some ''bytes 0-99/1000''" by simp
  have t': "trace (fst (streamVideoHandler rangeNetwork exampleWorld ?req ''clip-one'' ''s3cret''))
     = [KvGet ''clip-one'',
        ConsoleLog ''Streaming (Range: bytes=0-99): https://ex.com/a.bin'', Fetch ?rq]"
    using g k lower
    by (simp add: streamVideoHandler_def Let_def truthy_def showNullable_def emit_def
        exampleWorld_def exampleRecord_def hset_def hdelete_def
        split: fetchResult.splits)
  from t' p c show ?thesis by blast
qed

section \<open>The download relay\<close>


lemma hget_Nil [simp]: "hget n [] = None"
  by (simp add: hget_def)




lemma href_example:
  "href (''https://links.example'' @ ''/admin?key='' @ ''p w#'' @ [CHR 0x27] @ ''d '')
   = ''https://links.example/admin?key=p%20w#'' @ [CHR 0x27] @ ''d''
   \<and> href (''https://links.example'' @ ''/admin?key='' @ ''a'' @ [CHR 0x27, CHR 0xE9] @ ''<b'')
   = ''https://links.example/admin?key=a%27%C3%A9%3Cb''"
  by code_simp

section \<open>The filename probe\<close>

text \<open>
  A registration that passes validation, for a free slug and with no filename given,
  always succeeds. The filename is the slug with \<^verbatim>\<open>.mp4\<close> when the HEAD request is
  rejected, and otherwise the slug with the extension of the response's content type:
  the status of the response is not looked at.
\<close>

lemma statusOf_200: "statusOf (serveHtmlResponse title vs 200) = Some 200"
  by (simp add: statusOf_serveHtmlResponse nullBodyStatus_def)

lemma registration_with_probe:
  assumes "form req = Some fd" and "formGet ''custom_id'' fd = Some label"
    and "formGet ''url'' fd = Some u" and "u \<noteq> []"
    and "formGet ''key'' fd = Some k" and "k \<noteq> []"
    and "normalizeSlug label = slug" and "slug \<noteq> []" and "kv w slug = None"
    and "\<not> truthy (map_option trim (formGet ''filename'' fd))"
  shows "statusOf (snd (generateLinkHandler net w req)) = Some 200
    \<and> kv (fst (generateLinkHandler net w req)) slug
        = Some \<lparr>url = u, key = k,
                 filename = slug @ (case net \<lparr>fmethod = ''HEAD'', furl = u, fheaders = []\<rparr> of
                                      Rejected msg \<Rightarrow> ''.mp4''
                                    | Resolved resp \<Rightarrow>
                                        mapContentTypeToExtension
                                          (hget ''Content-Type'' (uheaders resp)))\<rparr>"
proof -
  let ?rq = "\<lparr>fmethod = ''HEAD'', furl = u, fheaders = []\<rparr>"
  let ?ext = "case net ?rq of Rejected msg \<Rightarrow> ''.mp4''
              | Resolved resp \<Rightarrow> mapContentTypeToExtension (hget ''Content-Type'' (uheaders resp))"
  obtain w2 where d: "detectFilename net (emit (KvGet slug) w) u slug = (w2, slug @ ?ext)"
    by (cases "net ?rq") (simp_all add: detectFilename_def Let_def)
  have w2: "kv w2 = kv w"
    using kv_detectFilename [of net "emit (KvGet slug) w" u slug] d by simp
  have prep: "prepareLink net w req
              = (w2, Inr (slug, \<lparr>url = u, key = k, filename = slug @ ?ext\<rparr>))"
    using assms d
    by (simp add: prepareLink_def Let_def truthy_def showNullable_def)
  show ?thesis
    using prep w2
    by (simp add: generateLinkHandler_def storeLink_def Let_def statusOf_200)
qed

text \<open>
  C6, the code at the failing input. The HEAD request is answered 404, a non-success
  status, with the content type \<^verbatim>\<open>application/octet-stream\<close>. The registration succeeds
  (status 200), and the filename stored under \<^verbatim>\<open>clip-one\<close> is \<^verbatim>\<open>clip-one.bin\<close>, where
  the claim has \<^verbatim>\<open>clip-one.mp4\<close>.
\<close>

theorem C6_probe_status_not_checked:
  "\<not> ok \<lparr>ustatus = 404, uheaders = [(''content-type'', ''application/octet-stream'')],
            ubody = None\<rparr>
   \<and> statusOf (snd (generateLinkHandler notFoundProbe emptyWorld
        (examplePost ''/generate'' None
           [(''url'', ''https://ex.com/gone''), (''key'', ''s3cret''),
            (''custom_id'', ''Clip One''), (''filename'', '''')]))) = Some 200
   \<and> kv (fst (generateLinkHandler notFoundProbe emptyWorld
        (examplePost ''/generate'' None
           [(''url'', ''https://ex.com/gone''), (''key'', ''s3cret''),
            (''custom_id'', ''Clip One''), (''filename'', '''')]))) ''clip-one''
     = Some \<lparr>url = ''https://ex.com/gone'', key = ''s3cret'', filename = ''clip-one.bin''\<rparr>"
proof -
  let ?fd = "[(''url'', ''https://ex.com/gone''), (''key'', ''s3cret''),
              (''custom_id'', ''Clip One''), (''filename'', '''')]"
  have n: "normalizeSlug ''Clip One'' = ''clip-one''" by code_simp
  have t: "\<not> truthy (map_option trim (formGet ''filename'' ?fd))" by code_simp
  have e: "mapContentTypeToExtension
             (hget ''Content-Type'' [(''content-type'', ''application/octet-stream'')]) = ''.bin''"
    by code_simp
  have "statusOf (snd (generateLinkHandler notFoundProbe emptyWorld (examplePost ''/generate'' None ?fd)))
          = Some 200
        \<and> kv (fst (generateLinkHandler notFoundProbe emptyWorld (examplePost ''/generate'' None ?fd)))
             ''clip-one''
          = Some \<lparr>url = ''https://ex.com/gone'', key = ''s3cret'',
                   filename = ''clip-one'' @ ''.bin''\<rparr>"
    using registration_with_probe [of "examplePost ''/generate'' None ?fd" ?fd "''Clip One''"
        "''https://ex.com/gone''" "''s3cret''" "''clip-one''" emptyWorld notFoundProbe] n t e
    by (simp add: examplePost_def formGet_def emptyWorld_def notFoundProbe_def)
  then show ?thesis by (simp add: ok_def)
qed

lemma probe_rejected_falls_back:
  "kv (fst (generateLinkHandler deadNetwork emptyWorld
        (examplePost ''/generate'' None
           [(''url'', ''https://ex.com/gone''), (''key'', ''s3cret''),
            (''custom_id'', ''Clip One'')]))) ''clip-one''
     = Some \<lparr>url = ''https://ex.com/gone'', key = ''s3cret'', filename = ''clip-one.mp4''\<rparr>"
proof -
  let ?fd = "[(''url'', ''https://ex.com/gone''), (''key'', ''s3cret''), (''custom_id'', ''Clip One'')]"
  have n: "normalizeSlug ''Clip One'' = ''clip-one''" by code_simp
  have t: "\<not> truthy (map_option trim (formGet ''filename'' ?fd))" by code_simp
  show ?thesis
    using registration_with_probe [of "examplePost ''/generate'' None ?fd" ?fd "''Clip One''"
        "''https://ex.com/gone''" "''s3cret''" "''clip-one''" emptyWorld deadNetwork] n t
    by (simp add: examplePost_def formGet_def emptyWorld_def deadNetwork_def)
qed

section \<open>Two registrations of one slug, interleaved\<close>

text \<open>
  The handler awaits between its lookup and its write. When two registrations of the
  same slug both finish their first part before either writes, both are answered 200
  and the second write replaces the record of the first. The second lemma shows two
  requests that do so from the empty store.
\<close>

lemma check_then_set_race:
  assumes "prepareLink netA w reqA = (wA, Inr (slug, rA))"
    and "prepareLink netB wA reqB = (wB, Inr (slug, rB))"
  shows "kv w slug = None
    \<and> statusOf (snd (storeLink wB reqA (slug, rA))) = Some 200
    \<and> kv (fst (storeLink wB reqA (slug, rA))) slug = Some rA
    \<and> statusOf (snd (storeLink (fst (storeLink wB reqA (slug, rA))) reqB (slug, rB))) = Some 200
    \<and> kv (fst (storeLink (fst (storeLink wB reqA (slug, rA))) reqB (slug, rB))) slug = Some rB"
proof -
  from prepareLink_Inr [OF assms(1)] have "kv w slug = None" by auto
  then show ?thesis
    by (simp add: storeLink_def Let_def statusOf_200)
qed

lemma check_then_set_race_happens:
  "\<exists>wA wB rA rB.
     prepareLink deadNetwork emptyWorld
       (examplePost ''/generate'' None
          [(''url'', ''https://ex.com/a.bin''), (''key'', ''alice''),
           (''custom_id'', ''Clip One''), (''filename'', ''a.mp4'')])
       = (wA, Inr (''clip-one'', rA))
     \<and> prepareLink deadNetwork wA
       (examplePost ''/generate'' None
          [(''url'', ''https://ex.com/b.bin''), (''key'', ''bob''),
           (''custom_id'', ''clip one''), (''filename'', ''b.mp4'')])
       = (wB, Inr (''clip-one'', rB))
     \<and> rA \<noteq> rB"
proof -
  have n: "normalizeSlug ''Clip One'' = ''clip-one''" "normalizeSlug ''clip one'' = ''clip-one''"
    by code_simp+
  have t: "trim ''a.mp4'' = ''a.mp4''" "trim ''b.mp4'' = ''b.mp4''" by code_simp+
  show ?thesis
    by (simp add: prepareLink_def Let_def examplePost_def formGet_def truthy_def showNullable_def
        emptyWorld_def n t emit_def)
qed

section \<open>The store invariant, for every request\<close>

text \<open>
  Only registration adds a key and only deletion removes one, so a store whose keys are
  all URL-safe slugs stays so under every request the router serves.
\<close>

lemma kv_streamVideoHandler [simp]: "kv (fst (streamVideoHandler net w req slugId k)) = kv w"
  by (simp add: streamVideoHandler_def Let_def split: option.splits fetchResult.splits)

lemma kv_downloadVideoHandler [simp]: "kv (fst (downloadVideoHandler net w req slugId k)) = kv w"
  by (simp add: downloadVideoHandler_def Let_def split: option.splits fetchResult.splits)

lemma kv_adminPageHandler [simp]: "kv (fst (adminPageHandler pw w req)) = kv w"
  by (simp add: adminPageHandler_def checkAdminAuth_def Let_def)

lemma dom_deleteLinkHandler: "dom (kv (fst (deleteLinkHandler pw w req))) \<subseteq> dom (kv w)"
  by (auto simp: deleteLinkHandler_def checkAdminAuth_def Let_def split: option.splits if_splits)

lemma serve_keeps_store_url_safe:
  assumes "\<forall>s\<in>dom (kv w). urlSafeSlug s"
  shows "\<forall>s\<in>dom (kv (fst (serve pw net w req))). urlSafeSlug s"
proof
  fix s assume s: "s \<in> dom (kv (fst (serve pw net w req)))"
  have "serve pw net w req = generateLinkHandler net w req
        \<or> serve pw net w req = deleteLinkHandler pw w req
        \<or> kv (fst (serve pw net w req)) = kv w"
    by (simp add: serve_def Let_def)
  then consider (gen) "serve pw net w req = generateLinkHandler net w req"
    | (del) "serve pw net w req = deleteLinkHandler pw w req"
    | (same) "kv (fst (serve pw net w req)) = kv w"
    by blast
  then show "urlSafeSlug s"
  proof cases
    case gen
    show ?thesis
    proof (cases "kv (fst (generateLinkHandler net w req)) s = kv w s")
      case True
      with s gen assms show ?thesis by (auto simp: dom_def)
    next
      case False
      from generateLinkHandler_kv [OF surjective_pairing, of net w req] False
      obtain label rcd where l: "normalizeSlug label \<noteq> []"
        and k: "kv (fst (generateLinkHandler net w req)) = (kv w)(normalizeSlug label \<mapsto> rcd)"
        by auto
      from k False have "s = normalizeSlug label" by (auto split: if_splits)
      with l normalizeSlug_urlSafe [of label] show ?thesis by simp
    qed
  next
    case del
    with s dom_deleteLinkHandler [of pw w req] assms show ?thesis by auto
  next
    case same
    with s assms show ?thesis by simp
  qed
qed

section \<open>Where the earlier revisions differ\<close>

lemma earlier_slug_chain_differs:
  "normalizeSlugEarlier ''My Movie! 2023'' = ''my-movie-2023''
   \<and> normalizeSlugEarlier ''a!b'' = ''ab'' \<and> normalizeSlug ''a!b'' = ''a-b''
   \<and> normalizeSlugEarlier ''-a--b-'' = ''-a--b-'' \<and> normalizeSlug ''-a--b-'' = ''a-b''
   \<and> \<not> urlSafeSlug ''-a--b-''"
  by code_simp

lemma earlier_content_disposition_differs:
  "contentDispositionEarlier ''a/b.mp4''
     = ''attachment; filename='' @ [CHR 0x22] @ ''a/b.mp4'' @ [CHR 0x22]
   \<and> contentDisposition ''a/b.mp4''
     = ''attachment; filename='' @ [CHR 0x22] @ ''a_b.mp4'' @ [CHR 0x22]
       @ ''; filename*=UTF-8'' @ [CHR 0x27, CHR 0x27] @ ''a%2Fb.mp4''"
  by code_simp

end
